theory Spec2Isabelle
  imports Complex_Main "HOL-Library.Stream"
begin

section \<open>Python values, failures and formatting\<close>

text \<open>
  The embedding of \<^verbatim>\<open>NoseParticleGeneration.py\<close>. Python integers are \<open>int\<close>; Python
  floats are modelled as \<open>real\<close> (exact arithmetic: the rounding of IEEE doubles is not
  modelled, except that the nostril sampler is also given with the arithmetic of the machine
  as a parameter); Python lists are HOL lists, and an index out of range raises, as do a
  zero range step and a zero modulus. The output file is the list of the lines written to
  it, and the random generator is the stream of the numbers it will return. Opening the
  file, the debugger hook behind \<^verbatim>\<open>DEBUG\<close> (which is \<^verbatim>\<open>False\<close>) and the closing
  \<^verbatim>\<open>print\<close> are not modelled; the particle count that is printed is the value the main
  function returns here.
\<close>

datatype error = IndexError | ValueError | ZeroDivisionError

definition bind_err :: "error + 'a \<Rightarrow> ('a \<Rightarrow> error + 'b) \<Rightarrow> error + 'b" where
  "bind_err m f = (case m of Inl e \<Rightarrow> Inl e | Inr v \<Rightarrow> f v)"

text \<open>\<^verbatim>\<open>xs[i]\<close> for a literal index \<open>i \<ge> 0\<close>.\<close>

definition index :: "'a list \<Rightarrow> nat \<Rightarrow> error + 'a" where
  "index xs i = (if i < length xs then Inr (xs ! i) else Inl IndexError)"

text \<open>
  \<^verbatim>\<open>a % b\<close> on integers: the sign of the result follows the divisor both in Python and
  in HOL; Python raises on a zero divisor.
\<close>

definition py_mod :: "int \<Rightarrow> int \<Rightarrow> error + int" where
  "py_mod a b = (if b = 0 then Inl ZeroDivisionError else Inr (a mod b))"

text \<open>\<^verbatim>\<open>range(start, stop, step)\<close> as the list of the values it yields.\<close>

definition range_py :: "int \<Rightarrow> int \<Rightarrow> int \<Rightarrow> error + int list" where
  "range_py start stop stp =
     (if stp = 0 then Inl ValueError
      else if 0 < stp then
        Inr (map (\<lambda>k. start + stp * int k) [0..<nat ((stop - start + stp - 1) div stp)])
      else
        Inr (map (\<lambda>k. start + stp * int k) [0..<nat ((start - stop - stp - 1) div (- stp))]))"

subsection \<open>Format specifications\<close>

definition tab :: char where
  "tab = CHR 0x09"

definition digit_char :: "nat \<Rightarrow> char" where
  "digit_char d = ''0123456789'' ! d"

fun str_nat :: "nat \<Rightarrow> string" where
  "str_nat n = (if n < 10 then [digit_char n] else str_nat (n div 10) @ [digit_char (n mod 10)])"

declare str_nat.simps [simp del]

text \<open>\<^verbatim>\<open>'{}'.format(i)\<close> for an integer.\<close>

definition str_int :: "int \<Rightarrow> string" where
  "str_int i = (if i < 0 then ''-'' @ str_nat (nat (- i)) else str_nat (nat i))"

definition round_half_even :: "real \<Rightarrow> int" where
  "round_half_even x =
     (let f = \<lfloor>x\<rfloor>; d = x - of_int f
      in if d < 1 / 2 then f else if 1 / 2 < d then f + 1 else if even f then f else f + 1)"

text \<open>
  \<^verbatim>\<open>'{:.pf}'.format(x)\<close>: the exact value of \<open>x\<close> rounded to \<open>p\<close> decimals, ties to
  even; the sign is kept when a negative value rounds to zero.
\<close>

definition format_f :: "nat \<Rightarrow> real \<Rightarrow> string" where
  "format_f p x =
     (let n = nat (round_half_even (\<bar>x\<bar> * 10 ^ p));
          ip = str_nat (n div 10 ^ p);
          fp = str_nat (n mod 10 ^ p)
      in (if x < 0 then ''-'' else [])
         @ ip
         @ (if p = 0 then [] else ''.'' @ replicate (p - length fp) CHR ''0'' @ fp))"

text \<open>Minimum field width \<open>w\<close>; numbers are right-aligned, padded with spaces.\<close>

definition rjust :: "nat \<Rightarrow> string \<Rightarrow> string" where
  "rjust w s = replicate (w - length s) CHR '' '' @ s"

section \<open>The output file\<close>

text \<open>
  The file is the list of the \<^verbatim>\<open>write\<close> calls made on it. A call is kept as the
  arguments of its format string; \<open>render\<close> is the format string, and the text of the
  file is the concatenation of the rendered calls.
\<close>

datatype line =
    Text string
  | FullRecord real real real real int
  | StarRecord int real real real

fun render :: "line \<Rightarrow> string" where
  "render (Text s) = s"
| "render (FullRecord x y z t pId) =
     format_f 15 x @ [tab] @ format_f 15 y @ [tab] @ format_f 15 z @ [tab]
     @ ''0.0'' @ [tab] @ ''0.0'' @ [tab] @ ''0.0'' @ [tab]
     @ rjust 7 (format_f 3 t) @ [tab] @ ''10.0e-6'' @ [tab] @ ''977.0'' @ [tab]
     @ str_int pId @ ''\<newline>''"
| "render (StarRecord n x y z) =
     ''v, '' @ str_int n @ '', '' @ format_f 15 x @ '', '' @ format_f 15 y
     @ '', '' @ format_f 15 z @ ''\<newline>''"

definition file_text :: "line list \<Rightarrow> string" where
  "file_text fh = concat (map render fh)"

definition Output :: "int \<Rightarrow> int \<Rightarrow> real list \<Rightarrow> line list \<Rightarrow> error + (line list \<times> int)" where
  "Output ti pId coord file_handle =
     bind_err (index coord 0) (\<lambda>c0.
     bind_err (index coord 1) (\<lambda>c1.
     bind_err (index coord 2) (\<lambda>c2.
       Inr (file_handle @ [FullRecord c0 c1 c2 (real_of_int ti / 1000) pId], pId + 1))))"

definition OutputStar :: "int \<Rightarrow> int \<Rightarrow> real list \<Rightarrow> line list \<Rightarrow> error + (line list \<times> int)" where
  "OutputStar ti pId coord file_handle =
     bind_err (index coord 0) (\<lambda>c0.
     bind_err (index coord 1) (\<lambda>c1.
     bind_err (index coord 2) (\<lambda>c2.
       Inr (file_handle @ [StarRecord (pId + 1) c0 c1 c2], pId + 1))))"

text \<open>The global \<^verbatim>\<open>whichOutput\<close> holds one of the two writers; \<open>call_whichOutput\<close> is a call
  through it.\<close>

datatype output_fn = UseOutput | UseOutputStar

fun call_whichOutput ::
  "output_fn \<Rightarrow> int \<Rightarrow> int \<Rightarrow> real list \<Rightarrow> line list \<Rightarrow> error + (line list \<times> int)" where
  "call_whichOutput UseOutput = Output"
| "call_whichOutput UseOutputStar = OutputStar"

section \<open>Simulation parameters\<close>

text \<open>
  The module-level constants and the literals of the main loop, as one record.
  \<open>default_config\<close> holds the values of the source. The loop of the source is
  \<^verbatim>\<open>range(0, 200005, 5)\<close>: a run of 200000 ms in steps of 5 ms whose last step is
  200000 itself; the bound of the range is \<open>runLength + step\<close>.
\<close>

record config =
  whichOutput :: output_fn
  runLength :: int
  step :: int
  cyclePeriod :: int
  exhaleLength :: int
  mouthCount :: nat
  nostrilCount :: nat
  xPln :: real
  ymin :: real
  ymax :: real
  zmin :: real
  zmax :: real
  radius :: real
  leftRotTrans :: "real list list"
  rightRotTrans :: "real list list"

definition ydel :: "config \<Rightarrow> real" where
  "ydel cfg = ymax cfg - ymin cfg"

definition zdel :: "config \<Rightarrow> real" where
  "zdel cfg = zmax cfg - zmin cfg"

definition default_config :: config where
  "default_config =
     \<lparr> whichOutput = UseOutput,
       runLength = 200000,
       step = 5,
       cyclePeriod = 5000,
       exhaleLength = 2500,
       mouthCount = 5,
       nostrilCount = 2,
       xPln = 0.0015,
       ymin = 3.351,
       ymax = 3.391,
       zmin = 1.678,
       zmax = 1.6881,
       radius = 0.001875,
       leftRotTrans = [ [ 0.948, 0.000, -0.319, 0.00573 ],
                        [ 0.000, 1.000,  0.000, -0.00875 ],
                        [ 0.319, 0.000,  0.948, 1.71177 ] ],
       rightRotTrans = [ [ 0.948, 0.000, -0.319, 0.00573 ],
                         [ 0.000, 1.000,  0.000, -0.00875 ],
                         [ 0.319, 0.000,  0.948, 1.71177 ] ] \<rparr>"

section \<open>Random numbers\<close>

text \<open>
  The state of the generator is the stream of the values that \<^verbatim>\<open>random.random()\<close>
  will return, each in \<open>[0, 1)\<close>. \<^verbatim>\<open>random.uniform(a, b)\<close> is
  \<^verbatim>\<open>a + (b - a) * random()\<close>.
\<close>

definition uniform :: "real \<Rightarrow> real \<Rightarrow> real stream \<Rightarrow> real \<times> real stream" where
  "uniform a b g = (a + (b - a) * shd g, stl g)"

record state =
  file_handle :: "line list"
  rand :: "real stream"

section \<open>The geometric transform\<close>

definition RotTrans_row :: "real list list \<Rightarrow> real list \<Rightarrow> nat \<Rightarrow> error + real" where
  "RotTrans_row rotTrans coord i =
     bind_err (index rotTrans i) (\<lambda>row.
     bind_err (index row 0) (\<lambda>r0.
     bind_err (index coord 0) (\<lambda>c0.
     bind_err (index row 1) (\<lambda>r1.
     bind_err (index coord 1) (\<lambda>c1.
     bind_err (index row 2) (\<lambda>r2.
     bind_err (index coord 2) (\<lambda>c2.
     bind_err (index row 3) (\<lambda>r3.
       Inr (r0 * c0 + r1 * c1 + r2 * c2 + r3)))))))))"

definition RotTrans :: "real list list \<Rightarrow> real list \<Rightarrow> error + real list" where
  "RotTrans rotTrans coord =
     bind_err (RotTrans_row rotTrans coord 0) (\<lambda>x.
     bind_err (RotTrans_row rotTrans coord 1) (\<lambda>y.
     bind_err (RotTrans_row rotTrans coord 2) (\<lambda>z.
       Inr [x, y, z])))"

section \<open>The nostril sampler\<close>

text \<open>
  The \<^verbatim>\<open>while True\<close> loop of \<^verbatim>\<open>GenNostril\<close>: it returns the accepted pair and the
  generator behind it, and has no value (\<open>None\<close>) when no candidate is ever accepted.
\<close>

partial_function (option) rejection_loop ::
  "real \<Rightarrow> real stream \<Rightarrow> ((real \<times> real) \<times> real stream) option" where
  "rejection_loop r g =
     (let (u, g1) = uniform (- 1) 1 g; x = r * u;
          (v, g2) = uniform (- 1) 1 g1; y = r * v
      in if x * x + y * y < r * r then Some ((x, y), g2)
         else rejection_loop r g2)"

declare rejection_loop.simps [code]

text \<open>
  The \<^verbatim>\<open>for i in range(0,2)\<close> loop of \<^verbatim>\<open>GenNostril\<close>, with the number of
  iterations as a parameter. An exception leaves the loop with the file as it is.
\<close>

fun GenNostril_for ::
  "nat \<Rightarrow> output_fn \<Rightarrow> int \<Rightarrow> real \<Rightarrow> int \<Rightarrow> real list list \<Rightarrow> state
    \<Rightarrow> ((error + int) \<times> state) option" where
  "GenNostril_for 0 w ti r pId rotTrans st = Some (Inr pId, st)"
| "GenNostril_for (Suc n) w ti r pId rotTrans st =
     (case rejection_loop r (rand st) of
        None \<Rightarrow> None
      | Some ((x, y), g) \<Rightarrow>
          (case bind_err (RotTrans rotTrans [x, y, 0])
                  (\<lambda>coord. call_whichOutput w ti pId coord (file_handle st)) of
             Inl e \<Rightarrow> Some (Inl e, st\<lparr>rand := g\<rparr>)
           | Inr (fh, pId') \<Rightarrow>
               GenNostril_for n w ti r pId' rotTrans \<lparr>file_handle = fh, rand = g\<rparr>))"

definition GenNostril ::
  "config \<Rightarrow> int \<Rightarrow> real \<Rightarrow> int \<Rightarrow> real list list \<Rightarrow> state \<Rightarrow> ((error + int) \<times> state) option" where
  "GenNostril cfg ti r pId rotTrans st =
     GenNostril_for (nostrilCount cfg) (whichOutput cfg) ti r pId rotTrans st"

section \<open>The nostril sampler in machine arithmetic\<close>

text \<open>
  Whether the rejection loop returns is decided by the test
  \<^verbatim>\<open>x*x + y*y < radius*radius\<close> as the machine evaluates it: Python floats are IEEE
  doubles, whose sums and products are rounded, underflow to zero and overflow. The sampler
  is therefore given a second time, with the arithmetic as a parameter: the addition, the
  subtraction, the multiplication and the comparison that the machine performs on floats,
  as arbitrary functions on the reals (an arithmetic may round, and may use reals of its own
  for the infinities and for NaN). What holds of this sampler for every arithmetic holds for
  the doubles. \<open>exact\<close> is the arithmetic of the reals; under it this sampler is the one of
  the section above.
\<close>

record arith =
  fadd :: "real \<Rightarrow> real \<Rightarrow> real"
  fsub :: "real \<Rightarrow> real \<Rightarrow> real"
  fmul :: "real \<Rightarrow> real \<Rightarrow> real"
  fless :: "real \<Rightarrow> real \<Rightarrow> bool"

definition exact :: arith where
  "exact = \<lparr>fadd = (+), fsub = (-), fmul = (*), fless = (<)\<rparr>"

text \<open>\<^verbatim>\<open>random.uniform(a, b)\<close>, which is \<^verbatim>\<open>a + (b - a) * random()\<close>.\<close>

definition uniform_fp :: "arith \<Rightarrow> real \<Rightarrow> real \<Rightarrow> real stream \<Rightarrow> real \<times> real stream" where
  "uniform_fp A a b g = (fadd A a (fmul A (fsub A b a) (shd g)), stl g)"

definition RotTrans_row_fp :: "arith \<Rightarrow> real list list \<Rightarrow> real list \<Rightarrow> nat \<Rightarrow> error + real" where
  "RotTrans_row_fp A rotTrans coord i =
     bind_err (index rotTrans i) (\<lambda>row.
     bind_err (index row 0) (\<lambda>r0.
     bind_err (index coord 0) (\<lambda>c0.
     bind_err (index row 1) (\<lambda>r1.
     bind_err (index coord 1) (\<lambda>c1.
     bind_err (index row 2) (\<lambda>r2.
     bind_err (index coord 2) (\<lambda>c2.
     bind_err (index row 3) (\<lambda>r3.
       Inr (fadd A (fadd A (fadd A (fmul A r0 c0) (fmul A r1 c1)) (fmul A r2 c2)) r3)))))))))"

definition RotTrans_fp :: "arith \<Rightarrow> real list list \<Rightarrow> real list \<Rightarrow> error + real list" where
  "RotTrans_fp A rotTrans coord =
     bind_err (RotTrans_row_fp A rotTrans coord 0) (\<lambda>x.
     bind_err (RotTrans_row_fp A rotTrans coord 1) (\<lambda>y.
     bind_err (RotTrans_row_fp A rotTrans coord 2) (\<lambda>z.
       Inr [x, y, z])))"

partial_function (option) rejection_loop_fp ::
  "arith \<Rightarrow> real \<Rightarrow> real stream \<Rightarrow> ((real \<times> real) \<times> real stream) option" where
  "rejection_loop_fp A r g =
     (let (u, g1) = uniform_fp A (- 1) 1 g; x = fmul A r u;
          (v, g2) = uniform_fp A (- 1) 1 g1; y = fmul A r v
      in if fless A (fadd A (fmul A x x) (fmul A y y)) (fmul A r r) then Some ((x, y), g2)
         else rejection_loop_fp A r g2)"

declare rejection_loop_fp.simps [code]

fun GenNostril_for_fp ::
  "nat \<Rightarrow> arith \<Rightarrow> output_fn \<Rightarrow> int \<Rightarrow> real \<Rightarrow> int \<Rightarrow> real list list \<Rightarrow> state
    \<Rightarrow> ((error + int) \<times> state) option" where
  "GenNostril_for_fp 0 A w ti r pId rotTrans st = Some (Inr pId, st)"
| "GenNostril_for_fp (Suc n) A w ti r pId rotTrans st =
     (case rejection_loop_fp A r (rand st) of
        None \<Rightarrow> None
      | Some ((x, y), g) \<Rightarrow>
          (case bind_err (RotTrans_fp A rotTrans [x, y, 0])
                  (\<lambda>coord. call_whichOutput w ti pId coord (file_handle st)) of
             Inl e \<Rightarrow> Some (Inl e, st\<lparr>rand := g\<rparr>)
           | Inr (fh, pId') \<Rightarrow>
               GenNostril_for_fp n A w ti r pId' rotTrans \<lparr>file_handle = fh, rand = g\<rparr>))"

definition GenNostril_fp ::
  "arith \<Rightarrow> config \<Rightarrow> int \<Rightarrow> real \<Rightarrow> int \<Rightarrow> real list list \<Rightarrow> state
    \<Rightarrow> ((error + int) \<times> state) option" where
  "GenNostril_fp A cfg ti r pId rotTrans st =
     GenNostril_for_fp (nostrilCount cfg) A (whichOutput cfg) ti r pId rotTrans st"

section \<open>The emission scheduler\<close>

text \<open>The \<^verbatim>\<open>for i in range(0,5)\<close> loop of the mouth particles.\<close>

fun mouth_for :: "nat \<Rightarrow> config \<Rightarrow> int \<Rightarrow> int \<Rightarrow> state \<Rightarrow> (error + int) \<times> state" where
  "mouth_for 0 cfg ti pId st = (Inr pId, st)"
| "mouth_for (Suc n) cfg ti pId st =
     (let (rydel, g1) = uniform 0 (ydel cfg) (rand st); y = ymin cfg + rydel;
          (rzdel, g2) = uniform 0 (zdel cfg) g1; z = zmin cfg + rzdel
      in case call_whichOutput (whichOutput cfg) ti pId [xPln cfg, y, z] (file_handle st) of
           Inl e \<Rightarrow> (Inl e, st\<lparr>rand := g2\<rparr>)
         | Inr (fh, pId') \<Rightarrow> mouth_for n cfg ti pId' \<lparr>file_handle = fh, rand = g2\<rparr>)"

text \<open>The body of the main loop, for one time step \<open>ti\<close>.\<close>

definition time_step :: "config \<Rightarrow> int \<Rightarrow> int \<Rightarrow> state \<Rightarrow> ((error + int) \<times> state) option" where
  "time_step cfg ti pId st =
     (case py_mod ti (cyclePeriod cfg) of
        Inl e \<Rightarrow> Some (Inl e, st)
      | Inr tm \<Rightarrow>
          if 0 \<le> tm \<and> tm < exhaleLength cfg then
            (case mouth_for (mouthCount cfg) cfg ti pId st of
               (Inl e, st1) \<Rightarrow> Some (Inl e, st1)
             | (Inr pId1, st1) \<Rightarrow>
                 (case GenNostril cfg ti (radius cfg) pId1 (leftRotTrans cfg) st1 of
                    None \<Rightarrow> None
                  | Some (Inl e, st2) \<Rightarrow> Some (Inl e, st2)
                  | Some (Inr pId2, st2) \<Rightarrow>
                      GenNostril cfg ti (radius cfg) pId2 (rightRotTrans cfg) st2))
          else Some (Inr pId, st))"

fun time_loop :: "config \<Rightarrow> int list \<Rightarrow> int \<Rightarrow> state \<Rightarrow> ((error + int) \<times> state) option" where
  "time_loop cfg [] pId st = Some (Inr pId, st)"
| "time_loop cfg (ti # tis) pId st =
     (case time_step cfg ti pId st of
        None \<Rightarrow> None
      | Some (Inl e, st') \<Rightarrow> Some (Inl e, st')
      | Some (Inr pId', st') \<Rightarrow> time_loop cfg tis pId' st')"

definition header :: "line list" where
  \<open>header = [Text ''# location velocity "start time" diameter  density\<newline>'',
             Text ''# x y z       u v w\<newline>'']\<close>

text \<open>
  The main function, from a generator state: the file it leaves and the particle count
  of its closing message (or the exception that ended it); \<open>None\<close> when it does not
  return.
\<close>

definition NoseParticleGeneration :: "config \<Rightarrow> real stream \<Rightarrow> ((error + int) \<times> state) option" where
  "NoseParticleGeneration cfg g =
     (let st = \<lparr>file_handle = (if whichOutput cfg = UseOutput then header else []), rand = g\<rparr>
      in case range_py 0 (runLength cfg + step cfg) (step cfg) of
           Inl e \<Rightarrow> Some (Inl e, st)
         | Inr tis \<Rightarrow> time_loop cfg tis 0 st)"

section \<open>Vocabulary of the properties\<close>

text \<open>A 3x4 matrix: three rows of four entries.\<close>

definition well_shaped :: "real list list \<Rightarrow> bool" where
  "well_shaped m = (length m = 3 \<and> list_all (\<lambda>row. length row = 4) m)"

text \<open>
  The candidate pair that one turn of the rejection loop draws from a generator, and the
  test that the loop applies to it.
\<close>

definition candidate :: "real \<Rightarrow> real stream \<Rightarrow> real \<times> real" where
  "candidate r g = (r * fst (uniform (- 1) 1 g), r * fst (uniform (- 1) 1 (stl g)))"

definition accepted :: "real \<Rightarrow> real stream \<Rightarrow> bool" where
  "accepted r g = (fst (candidate r g) * fst (candidate r g)
                   + snd (candidate r g) * snd (candidate r g) < r * r)"

text \<open>
  The line that a call of the writer appends for a position of three coordinates, and the
  lines of consecutive calls for a list of positions, the counter starting at \<open>pId\<close>.
\<close>

definition particle_line :: "output_fn \<Rightarrow> int \<Rightarrow> int \<Rightarrow> real list \<Rightarrow> line" where
  "particle_line w ti pId c =
     (case w of
        UseOutput \<Rightarrow> FullRecord (c ! 0) (c ! 1) (c ! 2) (real_of_int ti / 1000) pId
      | UseOutputStar \<Rightarrow> StarRecord (pId + 1) (c ! 0) (c ! 1) (c ! 2))"

fun emit :: "output_fn \<Rightarrow> int \<Rightarrow> int \<Rightarrow> real list list \<Rightarrow> line list" where
  "emit w ti pId [] = []"
| "emit w ti pId (c # cs) = particle_line w ti pId c # emit w ti (pId + 1) cs"

text \<open>The identifier that a line of the file carries; a header line carries none.\<close>

fun written_id :: "line \<Rightarrow> int option" where
  "written_id (Text s) = None"
| "written_id (FullRecord x y z t pId) = Some pId"
| "written_id (StarRecord n x y z) = Some n"

definition written_ids :: "line list \<Rightarrow> int list" where
  "written_ids fh = List.map_filter written_id fh"

text \<open>The first identifier of each format.\<close>

fun first_id :: "output_fn \<Rightarrow> int" where
  "first_id UseOutput = 0"
| "first_id UseOutputStar = 1"

text \<open>
  The positions that the mouth loop computes in \<open>n\<close> turns from a generator: two draws a
  turn, \<^verbatim>\<open>uniform(0.0, ydel)\<close> and \<^verbatim>\<open>uniform(0.0, zdel)\<close>.
\<close>

fun mouth_coords :: "config \<Rightarrow> nat \<Rightarrow> real stream \<Rightarrow> real list list" where
  "mouth_coords cfg 0 g = []"
| "mouth_coords cfg (Suc n) g =
     [xPln cfg, ymin cfg + fst (uniform 0 (ydel cfg) g),
      zmin cfg + fst (uniform 0 (zdel cfg) (stl g))]
     # mouth_coords cfg n (stl (stl g))"

text \<open>The mouth rectangle in the plane \<open>x = xPln\<close>.\<close>

definition in_mouth :: "config \<Rightarrow> real list \<Rightarrow> bool" where
  "in_mouth cfg c =
     (length c = 3 \<and> c ! 0 = xPln cfg \<and> ymin cfg \<le> c ! 1 \<and> c ! 1 \<le> ymax cfg
      \<and> zmin cfg \<le> c ! 2 \<and> c ! 2 \<le> zmax cfg)"

text \<open>The test \<^verbatim>\<open>tm >= 0 and tm < 2500\<close> of the main loop, for a nonzero cycle period.\<close>

definition exhaling :: "config \<Rightarrow> int \<Rightarrow> bool" where
  "exhaling cfg ti =
     (0 \<le> ti mod cyclePeriod cfg \<and> ti mod cyclePeriod cfg < exhaleLength cfg)"

text \<open>
  The position that a line of the file carries, and the test that a list of lines is what
  consecutive calls of the writer append at time step \<open>ti\<close>, the counter starting at
  \<open>pId\<close>.
\<close>

fun position :: "line \<Rightarrow> real list" where
  "position (Text s) = []"
| "position (FullRecord x y z t pId) = [x, y, z]"
| "position (StarRecord n x y z) = [x, y, z]"

definition is_batch :: "output_fn \<Rightarrow> int \<Rightarrow> int \<Rightarrow> line list \<Rightarrow> bool" where
  "is_batch w ti pId b = (b = emit w ti pId (map position b))"

text \<open>The number of particles of a time step: a full batch when exhaling, none otherwise.\<close>

definition batch_size :: "config \<Rightarrow> int \<Rightarrow> nat" where
  "batch_size cfg ti = (if exhaling cfg ti then mouthCount cfg + 2 * nostrilCount cfg else 0)"

text \<open>
  The lines of a run, one batch for each time step of the loop, in the order of the loop:
  the batch of \<open>ti\<close> is tagged \<open>ti\<close>, has the size of \<open>ti\<close>, and its identifiers go
  on where the batch before it stopped.
\<close>

fun batches_ok :: "config \<Rightarrow> int list \<Rightarrow> int \<Rightarrow> line list list \<Rightarrow> bool" where
  "batches_ok cfg [] pId bs = (bs = [])"
| "batches_ok cfg (ti # tis) pId [] = False"
| "batches_ok cfg (ti # tis) pId (b # bs) =
     (is_batch (whichOutput cfg) ti pId b \<and> length b = batch_size cfg ti
      \<and> batches_ok cfg tis (pId + int (length b)) bs)"

text \<open>What the file holds before the main loop: the two header lines of the full format.\<close>

definition preamble :: "config \<Rightarrow> line list" where
  "preamble cfg = (if whichOutput cfg = UseOutput then header else [])"

text \<open>
  The image of the open disk of radius \<open>r\<close> of the local plane \<open>z = 0\<close> under a
  transform: the positions whose local coordinates passed the test of the rejection loop.
\<close>

definition in_nostril :: "real \<Rightarrow> real list list \<Rightarrow> real list \<Rightarrow> bool" where
  "in_nostril r rotTrans c =
     (\<exists>x y. x * x + y * y < r * r \<and> RotTrans rotTrans [x, y, 0] = Inr c)"

text \<open>
  One time step of a run as the positions it emitted: the time, the counter at its start,
  and the positions of the mouth, of the left and of the right nostril. \<open>step_lines\<close> is
  what the writer appends for them, in this order.
\<close>

definition step_lines ::
  "output_fn \<Rightarrow> int \<times> int \<times> real list list \<times> real list list \<times> real list list \<Rightarrow> line list" where
  "step_lines w s = (case s of (ti, pId, ms, ls, rs) \<Rightarrow> emit w ti pId (ms @ ls @ rs))"

definition step_in_regions ::
  "config \<Rightarrow> int \<times> int \<times> real list list \<times> real list list \<times> real list list \<Rightarrow> bool" where
  "step_in_regions cfg s =
     (case s of (ti, pId, ms, ls, rs) \<Rightarrow>
        list_all (in_mouth cfg) ms
        \<and> list_all (in_nostril (radius cfg) (leftRotTrans cfg)) ls
        \<and> list_all (in_nostril (radius cfg) (rightRotTrans cfg)) rs)"

text \<open>
  Two configurations that the properties below are evaluated at: the source's with a run
  of 10000 ms, and one with a run of a single time step, a mouth rectangle whose \<open>ymin\<close>
  is above its \<open>ymax\<close> and a negative radius.
\<close>

definition scenario_config :: config where
  "scenario_config = default_config\<lparr>runLength := 10000\<rparr>"

definition malformed_config :: config where
  "malformed_config = default_config\<lparr>runLength := 0, ymin := 3.391, ymax := 3.351,
                                     radius := - 0.001875\<rparr>"

text \<open>
  The candidate pair and the test of the rejection loop in the arithmetic of the machine, and
  the number of pairs that the sampler has read from the generator when its samples are the
  candidates at the pair positions \<open>js\<close>.
\<close>

definition candidate_fp :: "arith \<Rightarrow> real \<Rightarrow> real stream \<Rightarrow> real \<times> real" where
  "candidate_fp A r g =
     (fmul A r (fst (uniform_fp A (- 1) 1 g)), fmul A r (fst (uniform_fp A (- 1) 1 (stl g))))"

definition accepted_fp :: "arith \<Rightarrow> real \<Rightarrow> real stream \<Rightarrow> bool" where
  "accepted_fp A r g =
     fless A (fadd A (fmul A (fst (candidate_fp A r g)) (fst (candidate_fp A r g)))
                     (fmul A (snd (candidate_fp A r g)) (snd (candidate_fp A r g))))
             (fmul A r r)"

definition pairs_read :: "nat list \<Rightarrow> nat" where
  "pairs_read js = (if js = [] then 0 else Suc (last js))"

text \<open>
  An arithmetic whose products underflow: a product of magnitude below \<open>1 / 2 ^ 1075\<close> is
  zero, as the rounded product of two doubles is.
\<close>

definition underflowing :: arith where
  "underflowing = exact\<lparr>fmul := (\<lambda>a b. if \<bar>a * b\<bar> < 1 / 2 ^ 1075 then 0 else a * b)\<rparr>"

text \<open>
  The course of a run: how it ended, the generator it left, and the lines of its file but
  for the positions they carry.
\<close>

fun without_position :: "line \<Rightarrow> line" where
  "without_position (Text s) = Text s"
| "without_position (FullRecord x y z t pId) = FullRecord 0 0 0 t pId"
| "without_position (StarRecord n x y z) = StarRecord n 0 0 0"

definition outcome ::
  "((error + int) \<times> state) option \<Rightarrow> ((error + int) \<times> real stream \<times> line list) option" where
  "outcome res = map_option (\<lambda>(a, st). (a, rand st, map without_position (file_handle st))) res"

section \<open>Python lists and the writer\<close>

lemma index_simps [simp]:
  "index (x # xs) 0 = Inr x"
  "index (x # xs) (Suc n) = index xs n"
  "index [] n = Inl IndexError"
  by (simp_all add: index_def)

lemma bind_err_simps [simp]:
  "bind_err (Inl e) f = Inl e"
  "bind_err (Inr v) f = f v"
  by (simp_all add: bind_err_def)

lemma Output_three:
  "Output ti pId [a, b, c] fh = Inr (fh @ [FullRecord a b c (real_of_int ti / 1000) pId], pId + 1)"
  by (simp add: Output_def index_def)

lemma OutputStar_three:
  "OutputStar ti pId [a, b, c] fh = Inr (fh @ [StarRecord (pId + 1) a b c], pId + 1)"
  by (simp add: OutputStar_def index_def)

section \<open>The geometric transform is affine\<close>

lemma RotTrans_row_ok:
  assumes "i < length rotTrans" "length (rotTrans ! i) = 4" "length p = 3"
  shows "RotTrans_row rotTrans p i =
     Inr (rotTrans ! i ! 0 * p ! 0 + rotTrans ! i ! 1 * p ! 1 + rotTrans ! i ! 2 * p ! 2
          + rotTrans ! i ! 3)"
  using assms by (simp add: RotTrans_row_def index_def del: length_greater_0_conv)

lemma RotTrans_ok:
  assumes "well_shaped rotTrans" and "length p = 3"
  shows "RotTrans rotTrans p =
     Inr [rotTrans ! 0 ! 0 * p ! 0 + rotTrans ! 0 ! 1 * p ! 1 + rotTrans ! 0 ! 2 * p ! 2
            + rotTrans ! 0 ! 3,
          rotTrans ! 1 ! 0 * p ! 0 + rotTrans ! 1 ! 1 * p ! 1 + rotTrans ! 1 ! 2 * p ! 2
            + rotTrans ! 1 ! 3,
          rotTrans ! 2 ! 0 * p ! 0 + rotTrans ! 2 ! 1 * p ! 1 + rotTrans ! 2 ! 2 * p ! 2
            + rotTrans ! 2 ! 3]"
proof -
  from assms(1) have len: "length rotTrans = 3" and rows: "\<forall>row \<in> set rotTrans. length row = 4"
    by (simp_all add: well_shaped_def list_all_iff)
  have "length (rotTrans ! i) = 4" if "i < 3" for i
    using len rows that by simp
  then show ?thesis
    using len assms(2) by (simp add: RotTrans_def RotTrans_row_ok)
qed

text \<open>
  C7. \<^verbatim>\<open>RotTrans\<close> is a function of its two arguments alone (it takes and returns no
  state), and on every 3x4 matrix and every point of three coordinates it raises nothing
  and returns the point whose \<open>i\<close>-th coordinate is
  \<open>R[i][0] * p[0] + R[i][1] * p[1] + R[i][2] * p[2] + R[i][3]\<close>.
\<close>

theorem RotTrans_affine:
  assumes "well_shaped rotTrans" and "length p = 3"
  shows "\<exists>q. RotTrans rotTrans p = Inr q \<and> length q = 3
     \<and> (\<forall>i<3. q ! i = rotTrans ! i ! 0 * p ! 0 + rotTrans ! i ! 1 * p ! 1
                        + rotTrans ! i ! 2 * p ! 2 + rotTrans ! i ! 3)"
proof -
  define row where "row i = rotTrans ! i ! 0 * p ! 0 + rotTrans ! i ! 1 * p ! 1
                        + rotTrans ! i ! 2 * p ! 2 + rotTrans ! i ! 3" for i
  have eq: "RotTrans rotTrans p = Inr [row 0, row 1, row 2]"
    unfolding row_def by (rule RotTrans_ok [OF assms])
  have "[row 0, row 1, row 2] ! i = row i" if "i < 3" for i
  proof -
    from that consider "i = 0" | "i = 1" | "i = 2" by arith
    then show ?thesis by cases simp_all
  qed
  with eq have "\<exists>q. RotTrans rotTrans p = Inr q \<and> length q = 3 \<and> (\<forall>i<3. q ! i = row i)"
    by simp
  then show ?thesis unfolding row_def .
qed

theorem RotTrans_affine_witness:
  "well_shaped (leftRotTrans default_config) \<and> length [1, 2, 0 :: real] = 3
   \<and> RotTrans (leftRotTrans default_config) [1, 2, 0] = Inr [0.95373, 1.99125, 2.03077]"
proof -
  have ws: "well_shaped (leftRotTrans default_config)"
    by (simp add: well_shaped_def default_config_def)
  have len: "length [1, 2, 0 :: real] = 3" by simp
  from RotTrans_affine [OF ws len] obtain q where
    q: "RotTrans (leftRotTrans default_config) [1, 2, 0] = Inr q" "length q = 3"
    "\<forall>i<3. q ! i = leftRotTrans default_config ! i ! 0 * [1, 2, 0] ! 0
        + leftRotTrans default_config ! i ! 1 * [1, 2, 0] ! 1
        + leftRotTrans default_config ! i ! 2 * [1, 2, 0] ! 2 + leftRotTrans default_config ! i ! 3"
    by blast
  from q(3) have "q ! 0 = 0.95373" "q ! 1 = 1.99125" "q ! 2 = 2.03077"
    by (simp_all add: default_config_def)
  moreover from q(2) obtain a b c where "q = [a, b, c]"
    by (cases q; cases "tl q"; cases "tl (tl q)") auto
  ultimately have "q = [0.95373, 1.99125, 2.03077]" by simp
  with q(1) ws len show ?thesis by simp
qed

section \<open>The text of a record\<close>

lemma round_half_even_near:
  assumes "\<bar>x - of_int k\<bar> < 1 / 2"
  shows "round_half_even x = k"
proof (cases "of_int k \<le> x")
  case True
  with assms have "\<lfloor>x\<rfloor> = k" by (intro floor_unique) auto
  with assms True show ?thesis by (simp add: round_half_even_def Let_def)
next
  case False
  with assms have f: "\<lfloor>x\<rfloor> = k - 1" by (intro floor_unique) auto
  from assms False have "1 / 2 < x - of_int (k - 1)" by auto
  with f show ?thesis by (simp add: round_half_even_def Let_def)
qed

text \<open>
  A value whose distance to \<open>n / 10 ^ p\<close> is less than half a unit of the last decimal
  prints as \<open>n / 10 ^ p\<close> does: the text does not change when the argument is the double
  next to a decimal literal instead of the literal itself.
\<close>

lemma format_f_near:
  assumes "0 \<le> x" and "\<bar>x * 10 ^ p - of_nat n\<bar> < 1 / 2" and "0 < p"
  shows "format_f p x =
     str_nat (n div 10 ^ p) @ ''.''
     @ replicate (p - length (str_nat (n mod 10 ^ p))) CHR ''0'' @ str_nat (n mod 10 ^ p)"
proof -
  from assms have "round_half_even (\<bar>x\<bar> * 10 ^ p) = int n"
    by (intro round_half_even_near) simp
  with assms(1,3) show ?thesis by (simp add: format_f_def Let_def)
qed

lemma str_nat_0: "str_nat 0 = ''0''"
  by (simp add: str_nat.simps digit_char_def)

lemma str_nat_1: "str_nat (Suc 0) = ''1''"
  by (simp add: str_nat.simps digit_char_def)

lemma str_nat_2: "str_nat 2 = ''2''"
  by (simp add: str_nat.simps digit_char_def)

lemma str_nat_3: "str_nat 3 = ''3''"
  by (simp add: str_nat.simps digit_char_def)

lemma str_nat_500: "str_nat 500 = ''500''"
  by (simp add: str_nat.simps digit_char_def)

lemma str_nat_x: "str_nat 1500000000000 = ''1500000000000''"
  by (simp add: str_nat.simps digit_char_def)

lemma str_nat_y: "str_nat 370000000000000 = ''370000000000000''"
  by (simp add: str_nat.simps digit_char_def)

lemma str_nat_z: "str_nat 683000000000000 = ''683000000000000''"
  by (simp add: str_nat.simps digit_char_def)

lemma replicate_two: "replicate 2 c = [c, c]"
  by (simp add: eval_nat_numeral)

lemma format_x:
  assumes "\<bar>x - 0.0015\<bar> < 4 / 10 ^ 16"
  shows "format_f 15 x = ''0.001500000000000''"
proof -
  from assms have "0 \<le> x" by (simp add: abs_if split: if_splits)
  moreover from assms have "\<bar>x * 10 ^ 15 - of_nat 1500000000000\<bar> < 1 / 2"
    by (simp add: abs_if split: if_splits)
  ultimately have "format_f 15 x = str_nat (1500000000000 div 10 ^ 15) @ ''.''
     @ replicate (15 - length (str_nat (1500000000000 mod 10 ^ 15))) CHR ''0''
     @ str_nat (1500000000000 mod 10 ^ 15)"
    by (rule format_f_near) simp
  then show ?thesis by (simp add: str_nat_0 str_nat_x replicate_two)
qed

lemma format_y:
  assumes "\<bar>x - 3.37\<bar> < 4 / 10 ^ 16"
  shows "format_f 15 x = ''3.370000000000000''"
proof -
  from assms have "0 \<le> x" by (simp add: abs_if split: if_splits)
  moreover from assms have "\<bar>x * 10 ^ 15 - of_nat 3370000000000000\<bar> < 1 / 2"
    by (simp add: abs_if split: if_splits)
  ultimately have "format_f 15 x = str_nat (3370000000000000 div 10 ^ 15) @ ''.''
     @ replicate (15 - length (str_nat (3370000000000000 mod 10 ^ 15))) CHR ''0''
     @ str_nat (3370000000000000 mod 10 ^ 15)"
    by (rule format_f_near) simp
  then show ?thesis by (simp add: str_nat_3 str_nat_y)
qed

lemma format_z:
  assumes "\<bar>x - 1.683\<bar> < 4 / 10 ^ 16"
  shows "format_f 15 x = ''1.683000000000000''"
proof -
  from assms have "0 \<le> x" by (simp add: abs_if split: if_splits)
  moreover from assms have "\<bar>x * 10 ^ 15 - of_nat 1683000000000000\<bar> < 1 / 2"
    by (simp add: abs_if split: if_splits)
  ultimately have "format_f 15 x = str_nat (1683000000000000 div 10 ^ 15) @ ''.''
     @ replicate (15 - length (str_nat (1683000000000000 mod 10 ^ 15))) CHR ''0''
     @ str_nat (1683000000000000 mod 10 ^ 15)"
    by (rule format_f_near) simp
  then show ?thesis by (simp add: str_nat_1 str_nat_z)
qed

lemma format_t: "rjust 7 (format_f 3 (real_of_int 2500 / 1000)) = ''  2.500''"
proof -
  have "format_f 3 (real_of_int 2500 / 1000) = str_nat (2500 div 10 ^ 3) @ ''.''
     @ replicate (3 - length (str_nat (2500 mod 10 ^ 3))) CHR ''0''
     @ str_nat (2500 mod 10 ^ 3)"
    by (rule format_f_near) simp_all
  then show ?thesis by (simp add: str_nat_2 str_nat_500 rjust_def replicate_two)
qed

text \<open>
  C6. In the full format the writer, called with \<open>ti = 2500\<close>, \<open>pId = 0\<close> and the position
  \<open>[0.0015, 3.37, 1.683]\<close>, appends one line to the file, whose text is
  \<^verbatim>\<open>0.001500000000000\t3.370000000000000\t1.683000000000000\t0.0\t0.0\t0.0\t  2.500\t10.0e-6\t977.0\t0\n\<close>,
  and returns the next identifier 1.
\<close>

theorem Output_scenario:
  "Output 2500 0 [0.0015, 3.37, 1.683] fh
     = Inr (fh @ [FullRecord 0.0015 3.37 1.683 (real_of_int 2500 / 1000) 0], 1)
   \<and> file_text (fh @ [FullRecord 0.0015 3.37 1.683 (real_of_int 2500 / 1000) 0])
     = file_text fh
       @ ''0.001500000000000'' @ [tab] @ ''3.370000000000000'' @ [tab]
       @ ''1.683000000000000'' @ [tab] @ ''0.0'' @ [tab] @ ''0.0'' @ [tab] @ ''0.0'' @ [tab]
       @ ''  2.500'' @ [tab] @ ''10.0e-6'' @ [tab] @ ''977.0'' @ [tab] @ ''0'' @ ''\<newline>''"
proof -
  have "format_f 15 0.0015 = ''0.001500000000000''" by (rule format_x) simp
  moreover have "format_f 15 3.37 = ''3.370000000000000''" by (rule format_y) simp
  moreover have "format_f 15 1.683 = ''1.683000000000000''" by (rule format_z) simp
  moreover have "str_int 0 = ''0''" by (simp add: str_int_def str_nat_0)
  ultimately show ?thesis
    using format_t by (simp add: Output_three file_text_def)
qed

section \<open>The two nostril transforms\<close>

text \<open>
  C10. The matrices of the left and of the right nostril are the same constant, so
  \<^verbatim>\<open>RotTrans\<close> maps every point to the same point under both, and \<^verbatim>\<open>GenNostril\<close>
  does the same with either from the same state: both batches are drawn from one disk.
\<close>

theorem nostril_transforms_equal:
  "leftRotTrans default_config = rightRotTrans default_config
   \<and> RotTrans (leftRotTrans default_config) p = RotTrans (rightRotTrans default_config) p
   \<and> GenNostril default_config ti r pId (leftRotTrans default_config) st
     = GenNostril default_config ti r pId (rightRotTrans default_config) st"
  by (simp add: default_config_def)

section \<open>The rejection loop\<close>

lemma rejection_loop_unfold:
  "rejection_loop r g =
     (if accepted r g then Some (candidate r g, stl (stl g)) else rejection_loop r (stl (stl g)))"
  by (subst rejection_loop.simps) (simp add: uniform_def candidate_def accepted_def Let_def)

text \<open>After \<open>k\<close> rejected pairs the loop returns the first accepted one, whatever \<open>k\<close> is.\<close>

lemma rejection_loop_first:
  assumes "accepted r (sdrop (2 * k) g)" and "\<forall>j<k. \<not> accepted r (sdrop (2 * j) g)"
  shows "rejection_loop r g = Some (candidate r (sdrop (2 * k) g), sdrop (2 * k + 2) g)"
  using assms
proof (induction k arbitrary: g)
  case 0
  then show ?case by (subst rejection_loop_unfold) simp
next
  case (Suc k)
  from Suc.prems(2) have rej: "\<not> accepted r g"
    by (metis mult_0_right sdrop.simps(1) zero_less_Suc)
  have "\<forall>j<k. \<not> accepted r (sdrop (2 * j) (stl (stl g)))"
  proof (intro allI impI)
    fix j assume "j < k"
    then have "\<not> accepted r (sdrop (2 * Suc j) g)" using Suc.prems(2) by blast
    then show "\<not> accepted r (sdrop (2 * j) (stl (stl g)))" by simp
  qed
  moreover from Suc.prems(1) have "accepted r (sdrop (2 * k) (stl (stl g)))" by simp
  ultimately have "rejection_loop r (stl (stl g))
      = Some (candidate r (sdrop (2 * k) (stl (stl g))), sdrop (2 * k + 2) (stl (stl g)))"
    by (rule Suc.IH[rotated])
  with rej show ?case by (subst rejection_loop_unfold) simp
qed

text \<open>Whenever the loop returns, it returns the first accepted pair of the generator.\<close>

lemma rejection_loop_Some:
  assumes "rejection_loop r g = Some res"
  shows "\<exists>k. accepted r (sdrop (2 * k) g) \<and> (\<forall>j<k. \<not> accepted r (sdrop (2 * j) g))
            \<and> res = (candidate r (sdrop (2 * k) g), sdrop (2 * k + 2) g)"
proof (rule rejection_loop.raw_induct
    [where P = "\<lambda>r g res. \<exists>k. accepted r (sdrop (2 * k) g)
            \<and> (\<forall>j<k. \<not> accepted r (sdrop (2 * j) g))
            \<and> res = (candidate r (sdrop (2 * k) g), sdrop (2 * k + 2) g)", OF _ assms])
  fix f r g res
  assume IH: "\<And>r g res. f r g = Some res \<Longrightarrow>
      \<exists>k. accepted r (sdrop (2 * k) g) \<and> (\<forall>j<k. \<not> accepted r (sdrop (2 * j) g))
            \<and> res = (candidate r (sdrop (2 * k) g), sdrop (2 * k + 2) g)"
    and eq: "(let (u, g1) = uniform (- 1) 1 g; x = r * u;
          (v, g2) = uniform (- 1) 1 g1; y = r * v
      in if x * x + y * y < r * r then Some ((x, y), g2)
         else f r g2) = Some res"
  from eq have eq': "(if accepted r g then Some (candidate r g, stl (stl g))
      else f r (stl (stl g))) = Some res"
    by (auto simp add: uniform_def candidate_def accepted_def Let_def split: if_splits)
  show "\<exists>k. accepted r (sdrop (2 * k) g) \<and> (\<forall>j<k. \<not> accepted r (sdrop (2 * j) g))
            \<and> res = (candidate r (sdrop (2 * k) g), sdrop (2 * k + 2) g)"
  proof (cases "accepted r g")
    case True
    with eq' have "res = (candidate r g, stl (stl g))" by simp
    with True show ?thesis by (intro exI[of _ 0]) simp
  next
    case False
    with eq' have "f r (stl (stl g)) = Some res" by simp
    from IH[OF this] obtain k where k: "accepted r (sdrop (2 * k) (stl (stl g)))"
      "\<forall>j<k. \<not> accepted r (sdrop (2 * j) (stl (stl g)))"
      "res = (candidate r (sdrop (2 * k) (stl (stl g))), sdrop (2 * k + 2) (stl (stl g)))"
      by blast
    have "\<forall>j<Suc k. \<not> accepted r (sdrop (2 * j) g)"
    proof (intro allI impI)
      fix j assume j: "j < Suc k"
      show "\<not> accepted r (sdrop (2 * j) g)"
      proof (cases j)
        case 0
        with False show ?thesis by simp
      next
        case (Suc j')
        with j k(2) show ?thesis by simp
      qed
    qed
    with k(1,3) show ?thesis by (intro exI[of _ "Suc k"]) simp
  qed
qed

section \<open>The writer and the mouth loop\<close>

lemma call_whichOutput_three:
  "call_whichOutput w ti pId [a, b, c] fh = Inr (fh @ [particle_line w ti pId [a, b, c]], pId + 1)"
  by (cases w) (simp_all add: Output_three OutputStar_three particle_line_def)

lemma RotTrans_Inr_length:
  assumes "RotTrans m p = Inr q"
  shows "length q = 3"
  using assms by (auto simp add: RotTrans_def bind_err_def split: sum.splits)

lemma call_whichOutput_length3:
  assumes "length c = 3"
  shows "call_whichOutput w ti pId c fh = Inr (fh @ [particle_line w ti pId c], pId + 1)"
proof -
  from assms obtain x y z where "c = [x, y, z]"
    by (cases c; cases "tl c"; cases "tl (tl c)") auto
  then show ?thesis by (simp add: call_whichOutput_three)
qed

lemma mouth_for_eq:
  "mouth_for n cfg ti pId st =
     (Inr (pId + int n),
      \<lparr>file_handle = file_handle st @ emit (whichOutput cfg) ti pId (mouth_coords cfg n (rand st)),
       rand = sdrop (2 * n) (rand st)\<rparr>)"
proof (induction n arbitrary: pId st)
  case 0
  then show ?case by simp
next
  case (Suc n)
  show ?case
    by (simp add: Suc.IH uniform_def call_whichOutput_three Let_def)
qed

lemma length_mouth_coords [simp]: "length (mouth_coords cfg n g) = n"
  by (induction n arbitrary: g) simp_all

lemma length_emit [simp]: "length (emit w ti pId cs) = length cs"
  by (induction cs arbitrary: pId) simp_all

lemma emit_append: "emit w ti pId (cs @ ds) = emit w ti pId cs @ emit w ti (pId + int (length cs)) ds"
  by (induction cs arbitrary: pId) (simp_all add: add.assoc)

lemma mouth_coords_in_mouth:
  assumes "ymin cfg \<le> ymax cfg" and "zmin cfg \<le> zmax cfg"
    and "\<forall>u \<in> sset g. 0 \<le> u \<and> u < 1"
  shows "\<forall>c \<in> set (mouth_coords cfg n g). in_mouth cfg c"
  using assms(3)
proof (induction n arbitrary: g)
  case 0
  then show ?case by simp
next
  case (Suc n)
  have u: "0 \<le> shd g \<and> shd g < 1" using Suc.prems by (simp add: shd_sset)
  have "shd (stl g) \<in> sset g" by (metis shd_sset stl_sset)
  then have v: "0 \<le> shd (stl g) \<and> shd (stl g) < 1" using Suc.prems by blast
  have "\<forall>u \<in> sset (stl (stl g)). 0 \<le> u \<and> u < 1"
    using Suc.prems by (meson stl_sset)
  then have rest: "\<forall>c \<in> set (mouth_coords cfg n (stl (stl g))). in_mouth cfg c"
    by (rule Suc.IH)
  have y1: "0 \<le> (ymax cfg - ymin cfg) * shd g"
    using u assms(1) by simp
  have y2: "(ymax cfg - ymin cfg) * shd g \<le> ymax cfg - ymin cfg"
    using u assms(1) by (simp add: mult_left_le)
  have z1: "0 \<le> (zmax cfg - zmin cfg) * shd (stl g)"
    using v assms(2) by simp
  have z2: "(zmax cfg - zmin cfg) * shd (stl g) \<le> zmax cfg - zmin cfg"
    using v assms(2) by (simp add: mult_left_le)
  have "in_mouth cfg [xPln cfg, ymin cfg + fst (uniform 0 (ydel cfg) g),
      zmin cfg + fst (uniform 0 (zdel cfg) (stl g))]"
    using y1 y2 z1 z2 by (simp add: in_mouth_def uniform_def ydel_def zdel_def)
  with rest show ?case by simp
qed

section \<open>The nostril sampler returns its samples\<close>

lemma rejection_loop_returns:
  assumes "accepted r (sdrop (2 * k) g)"
  shows "\<exists>k'\<le>k. accepted r (sdrop (2 * k') g)
     \<and> rejection_loop r g = Some (candidate r (sdrop (2 * k') g), sdrop (2 * k' + 2) g)"
proof -
  define k' where "k' = (LEAST j. accepted r (sdrop (2 * j) g))"
  have acc: "accepted r (sdrop (2 * k') g)"
    unfolding k'_def using assms by (rule LeastI)
  have le: "k' \<le> k"
    unfolding k'_def using assms by (rule Least_le)
  have "\<forall>j<k'. \<not> accepted r (sdrop (2 * j) g)"
    unfolding k'_def using not_less_Least by blast
  with acc have "rejection_loop r g = Some (candidate r (sdrop (2 * k') g), sdrop (2 * k' + 2) g)"
    by (rule rejection_loop_first)
  with acc le show ?thesis by blast
qed

lemma candidate_accepted:
  assumes "accepted r g" and "candidate r g = (x, y)"
  shows "x * x + y * y < r * r"
  using assms by (simp add: accepted_def)

lemma GenNostril_for_Inr:
  assumes "GenNostril_for n w ti r pId M st = Some (Inr pId', st')"
  shows "\<exists>ps cs. length ps = n \<and> (\<forall>p \<in> set ps. fst p * fst p + snd p * snd p < r * r)
     \<and> list_all2 (\<lambda>p c. RotTrans M [fst p, snd p, 0] = Inr c) ps cs
     \<and> file_handle st' = file_handle st @ emit w ti pId cs
     \<and> pId' = pId + int n \<and> (\<exists>j. rand st' = sdrop j (rand st))"
  using assms
proof (induction n arbitrary: pId st)
  case 0
  then have "st' = st" "pId' = pId" by simp_all
  then show ?case
    by (intro exI[of _ "[]"]) (simp, metis sdrop.simps(1))
next
  case (Suc n)
  from Suc.prems obtain x y g where rl: "rejection_loop r (rand st) = Some ((x, y), g)"
    by (auto split: option.splits)
  from rejection_loop_Some[OF rl] obtain k where k: "accepted r (sdrop (2 * k) (rand st))"
    "(x, y) = candidate r (sdrop (2 * k) (rand st))" "g = sdrop (2 * k + 2) (rand st)"
    by auto
  from k(1,2) have disk: "x * x + y * y < r * r"
    by (metis candidate_accepted)
  from Suc.prems rl obtain fh pId1 where
    wr: "bind_err (RotTrans M [x, y, 0]) (\<lambda>coord. call_whichOutput w ti pId coord (file_handle st))
          = Inr (fh, pId1)"
    and rec: "GenNostril_for n w ti r pId1 M \<lparr>file_handle = fh, rand = g\<rparr> = Some (Inr pId', st')"
    by (auto split: sum.splits)
  from wr obtain c where c: "RotTrans M [x, y, 0] = Inr c"
    and out: "call_whichOutput w ti pId c (file_handle st) = Inr (fh, pId1)"
    by (cases "RotTrans M [x, y, 0]") auto
  from c have "length c = 3" by (rule RotTrans_Inr_length)
  with out have fh: "fh = file_handle st @ [particle_line w ti pId c]" and pId1: "pId1 = pId + 1"
    by (simp_all add: call_whichOutput_length3)
  from Suc.IH[OF rec] obtain ps cs j where IH:
    "length ps = n" "\<forall>p \<in> set ps. fst p * fst p + snd p * snd p < r * r"
    "list_all2 (\<lambda>p c. RotTrans M [fst p, snd p, 0] = Inr c) ps cs"
    "file_handle st' = fh @ emit w ti pId1 cs"
    "pId' = pId1 + int n" "rand st' = sdrop j g"
    by auto
  have "rand st' = sdrop (2 * k + 2 + j) (rand st)"
    using IH(6) k(3) by (simp add: sdrop_add)
  then have "\<exists>j. rand st' = sdrop j (rand st)" ..
  moreover have "length ((x, y) # ps) = Suc n" using IH(1) by simp
  moreover have "\<forall>p \<in> set ((x, y) # ps). fst p * fst p + snd p * snd p < r * r"
    using IH(2) disk by simp
  moreover have "list_all2 (\<lambda>p c. RotTrans M [fst p, snd p, 0] = Inr c) ((x, y) # ps) (c # cs)"
    using IH(3) c by simp
  moreover have "file_handle st' = file_handle st @ emit w ti pId (c # cs)"
    using IH(4) fh pId1 by simp
  moreover have "pId' = pId + int (Suc n)" using IH(5) pId1 by simp
  ultimately show ?case by blast
qed

lemma GenNostril_for_returns_fair:
  assumes "well_shaped M" and "\<forall>m. \<exists>k. accepted r (sdrop (m + 2 * k) (rand st))"
  shows "\<exists>pId' st'. GenNostril_for n w ti r pId M st = Some (Inr pId', st')"
  using assms(2)
proof (induction n arbitrary: pId st)
  case 0
  then show ?case by simp
next
  case (Suc n)
  from Suc.prems obtain k0 where "accepted r (sdrop (0 + 2 * k0) (rand st))" by blast
  then have "accepted r (sdrop (2 * k0) (rand st))" by simp
  from rejection_loop_returns[OF this] obtain k where
    rl: "rejection_loop r (rand st)
          = Some (candidate r (sdrop (2 * k) (rand st)), sdrop (2 * k + 2) (rand st))"
    by blast
  obtain x y where xy: "candidate r (sdrop (2 * k) (rand st)) = (x, y)"
    by (cases "candidate r (sdrop (2 * k) (rand st))")
  obtain c where c: "RotTrans M [x, y, 0] = Inr c" and len: "length c = 3"
    using RotTrans_ok[OF assms(1), of "[x, y, 0]"] by simp
  let ?st = "\<lparr>file_handle = file_handle st @ [particle_line w ti pId c],
              rand = sdrop (2 * k + 2) (rand st)\<rparr>"
  have "\<forall>m. \<exists>j. accepted r (sdrop (m + 2 * j) (rand ?st))"
  proof
    fix m
    from Suc.prems obtain j where "accepted r (sdrop ((2 * k + 2 + m) + 2 * j) (rand st))"
      by blast
    then have "accepted r (sdrop (m + 2 * j) (rand ?st))"
      by (simp add: sdrop_add add.assoc)
    then show "\<exists>j. accepted r (sdrop (m + 2 * j) (rand ?st))" ..
  qed
  from Suc.IH[OF this] obtain pId' st' where
    "GenNostril_for n w ti r (pId + 1) M ?st = Some (Inr pId', st')" by blast
  then have "GenNostril_for (Suc n) w ti r pId M st = Some (Inr pId', st')"
    using rl xy c len by (simp add: call_whichOutput_length3)
  then show ?case by blast
qed

lemma GenNostril_for_returns:
  assumes "well_shaped M" and "length ks = n" and "sorted_wrt (<) ks"
    and "\<forall>k \<in> set ks. accepted r (sdrop (2 * k) (rand st))"
  shows "\<exists>pId' st'. GenNostril_for n w ti r pId M st = Some (Inr pId', st')"
  using assms(2-4)
proof (induction n arbitrary: pId st ks)
  case 0
  then show ?case by simp
next
  case (Suc n)
  from Suc.prems(1) obtain k0 ks' where ks: "ks = k0 # ks'" and len': "length ks' = n"
    by (cases ks) auto
  from Suc.prems(3) ks have "accepted r (sdrop (2 * k0) (rand st))" by simp
  from rejection_loop_returns[OF this] obtain k where k: "k \<le> k0"
    and rl: "rejection_loop r (rand st)
          = Some (candidate r (sdrop (2 * k) (rand st)), sdrop (2 * k + 2) (rand st))"
    by blast
  obtain x y where xy: "candidate r (sdrop (2 * k) (rand st)) = (x, y)"
    by (cases "candidate r (sdrop (2 * k) (rand st))")
  obtain c where c: "RotTrans M [x, y, 0] = Inr c" and len: "length c = 3"
    using RotTrans_ok[OF assms(1), of "[x, y, 0]"] by simp
  let ?st = "\<lparr>file_handle = file_handle st @ [particle_line w ti pId c],
              rand = sdrop (2 * k + 2) (rand st)\<rparr>"
  let ?ks = "map (\<lambda>j. j - (k + 1)) ks'"
  from Suc.prems(2) ks have above: "\<forall>j \<in> set ks'. k0 < j" and sorted': "sorted_wrt (<) ks'"
    by simp_all
  from above k have ge: "\<forall>j \<in> set ks'. k + 1 \<le> j" by auto
  have "length ?ks = n" using len' by simp
  moreover have "sorted_wrt (<) ?ks"
    unfolding sorted_wrt_map
    by (rule sorted_wrt_mono_rel[OF _ sorted']) (use ge in auto)
  moreover have "\<forall>j \<in> set ?ks. accepted r (sdrop (2 * j) (rand ?st))"
  proof
    fix j assume "j \<in> set ?ks"
    then obtain i where i: "i \<in> set ks'" "j = i - (k + 1)" by auto
    with ge have eq: "2 * k + 2 + 2 * j = 2 * i" by auto
    have "sdrop (2 * j) (sdrop (2 * k + 2) (rand st)) = sdrop (2 * i) (rand st)"
      unfolding sdrop_add eq ..
    moreover from i(1) Suc.prems(3) ks have "accepted r (sdrop (2 * i) (rand st))" by simp
    ultimately show "accepted r (sdrop (2 * j) (rand ?st))"
      by simp
  qed
  ultimately obtain pId' st' where
    "GenNostril_for n w ti r (pId + 1) M ?st = Some (Inr pId', st')"
    using Suc.IH by blast
  then have "GenNostril_for (Suc n) w ti r pId M st = Some (Inr pId', st')"
    using rl xy c len by (simp add: call_whichOutput_length3)
  then show ?case by blast
qed

section \<open>The sampler in machine arithmetic\<close>

lemma rejection_loop_fp_unfold:
  "rejection_loop_fp A r g =
     (if accepted_fp A r g then Some (candidate_fp A r g, stl (stl g))
      else rejection_loop_fp A r (stl (stl g)))"
  by (subst rejection_loop_fp.simps) (simp add: uniform_fp_def candidate_fp_def accepted_fp_def Let_def)

lemma rejection_loop_fp_first:
  assumes "accepted_fp A r (sdrop (2 * k) g)" and "\<forall>j<k. \<not> accepted_fp A r (sdrop (2 * j) g)"
  shows "rejection_loop_fp A r g = Some (candidate_fp A r (sdrop (2 * k) g), sdrop (2 * k + 2) g)"
  using assms
proof (induction k arbitrary: g)
  case 0
  then show ?case by (subst rejection_loop_fp_unfold) simp
next
  case (Suc k)
  from Suc.prems(2) have rej: "\<not> accepted_fp A r g"
    by (metis mult_0_right sdrop.simps(1) zero_less_Suc)
  have "\<forall>j<k. \<not> accepted_fp A r (sdrop (2 * j) (stl (stl g)))"
  proof (intro allI impI)
    fix j assume "j < k"
    then have "\<not> accepted_fp A r (sdrop (2 * Suc j) g)" using Suc.prems(2) by blast
    then show "\<not> accepted_fp A r (sdrop (2 * j) (stl (stl g)))" by simp
  qed
  moreover from Suc.prems(1) have "accepted_fp A r (sdrop (2 * k) (stl (stl g)))" by simp
  ultimately have "rejection_loop_fp A r (stl (stl g))
      = Some (candidate_fp A r (sdrop (2 * k) (stl (stl g))), sdrop (2 * k + 2) (stl (stl g)))"
    by (rule Suc.IH[rotated])
  with rej show ?case by (subst rejection_loop_fp_unfold) simp
qed

lemma rejection_loop_fp_Some:
  assumes "rejection_loop_fp A r g = Some res"
  shows "\<exists>k. accepted_fp A r (sdrop (2 * k) g) \<and> (\<forall>j<k. \<not> accepted_fp A r (sdrop (2 * j) g))
            \<and> res = (candidate_fp A r (sdrop (2 * k) g), sdrop (2 * k + 2) g)"
proof (rule rejection_loop_fp.raw_induct
    [where P = "\<lambda>A r g res. \<exists>k. accepted_fp A r (sdrop (2 * k) g)
            \<and> (\<forall>j<k. \<not> accepted_fp A r (sdrop (2 * j) g))
            \<and> res = (candidate_fp A r (sdrop (2 * k) g), sdrop (2 * k + 2) g)", OF _ assms])
  fix f A r g res
  assume IH: "\<And>A r g res. f A r g = Some res \<Longrightarrow>
      \<exists>k. accepted_fp A r (sdrop (2 * k) g) \<and> (\<forall>j<k. \<not> accepted_fp A r (sdrop (2 * j) g))
            \<and> res = (candidate_fp A r (sdrop (2 * k) g), sdrop (2 * k + 2) g)"
    and eq: "(let (u, g1) = uniform_fp A (- 1) 1 g; x = fmul A r u;
          (v, g2) = uniform_fp A (- 1) 1 g1; y = fmul A r v
      in if fless A (fadd A (fmul A x x) (fmul A y y)) (fmul A r r) then Some ((x, y), g2)
         else f A r g2) = Some res"
  from eq have eq': "(if accepted_fp A r g then Some (candidate_fp A r g, stl (stl g))
      else f A r (stl (stl g))) = Some res"
    by (auto simp add: uniform_fp_def candidate_fp_def accepted_fp_def Let_def split: if_splits)
  show "\<exists>k. accepted_fp A r (sdrop (2 * k) g) \<and> (\<forall>j<k. \<not> accepted_fp A r (sdrop (2 * j) g))
            \<and> res = (candidate_fp A r (sdrop (2 * k) g), sdrop (2 * k + 2) g)"
  proof (cases "accepted_fp A r g")
    case True
    with eq' have "res = (candidate_fp A r g, stl (stl g))" by simp
    with True show ?thesis by (intro exI[of _ 0]) simp
  next
    case False
    with eq' have "f A r (stl (stl g)) = Some res" by simp
    from IH[OF this] obtain k where k: "accepted_fp A r (sdrop (2 * k) (stl (stl g)))"
      "\<forall>j<k. \<not> accepted_fp A r (sdrop (2 * j) (stl (stl g)))"
      "res = (candidate_fp A r (sdrop (2 * k) (stl (stl g))), sdrop (2 * k + 2) (stl (stl g)))"
      by blast
    have "\<forall>j<Suc k. \<not> accepted_fp A r (sdrop (2 * j) g)"
    proof (intro allI impI)
      fix j assume j: "j < Suc k"
      show "\<not> accepted_fp A r (sdrop (2 * j) g)"
      proof (cases j)
        case 0
        with False show ?thesis by simp
      next
        case (Suc j')
        with j k(2) show ?thesis by simp
      qed
    qed
    with k(1,3) show ?thesis by (intro exI[of _ "Suc k"]) simp
  qed
qed

lemma rejection_loop_fp_None:
  assumes "\<forall>k. \<not> accepted_fp A r (sdrop (2 * k) g)"
  shows "rejection_loop_fp A r g = None"
proof (cases "rejection_loop_fp A r g")
  case None
  then show ?thesis .
next
  case (Some res)
  from rejection_loop_fp_Some[OF Some] assms show ?thesis by blast
qed

lemma rejection_loop_fp_least:
  assumes "accepted_fp A r (sdrop (2 * k) g)"
  shows "\<exists>k'\<le>k. accepted_fp A r (sdrop (2 * k') g) \<and> (\<forall>j<k'. \<not> accepted_fp A r (sdrop (2 * j) g))
     \<and> rejection_loop_fp A r g = Some (candidate_fp A r (sdrop (2 * k') g), sdrop (2 * k' + 2) g)"
proof -
  define k' where "k' = (LEAST j. accepted_fp A r (sdrop (2 * j) g))"
  have acc: "accepted_fp A r (sdrop (2 * k') g)"
    unfolding k'_def using assms by (rule LeastI)
  have le: "k' \<le> k"
    unfolding k'_def using assms by (rule Least_le)
  have rej: "\<forall>j<k'. \<not> accepted_fp A r (sdrop (2 * j) g)"
    unfolding k'_def using not_less_Least by blast
  with acc have "rejection_loop_fp A r g
      = Some (candidate_fp A r (sdrop (2 * k') g), sdrop (2 * k' + 2) g)"
    by (rule rejection_loop_fp_first)
  with acc le rej show ?thesis by blast
qed

subsection \<open>Under the arithmetic of the reals\<close>

lemma uniform_fp_exact: "uniform_fp exact a b g = uniform a b g"
  by (simp add: uniform_fp_def uniform_def exact_def)

lemma candidate_fp_exact: "candidate_fp exact r g = candidate r g"
  by (simp add: candidate_fp_def candidate_def uniform_fp_exact) (simp add: exact_def)

lemma accepted_fp_exact: "accepted_fp exact r g = accepted r g"
  by (simp add: accepted_fp_def accepted_def candidate_fp_exact) (simp add: exact_def)

lemma RotTrans_fp_exact: "RotTrans_fp exact rotTrans coord = RotTrans rotTrans coord"
  by (simp add: RotTrans_fp_def RotTrans_def RotTrans_row_fp_def RotTrans_row_def exact_def)

lemma rejection_loop_fp_exact: "rejection_loop_fp exact r g = rejection_loop r g"
proof (cases "rejection_loop r g")
  case None
  have "\<forall>k. \<not> accepted r (sdrop (2 * k) g)"
  proof (intro allI notI)
    fix k assume "accepted r (sdrop (2 * k) g)"
    from rejection_loop_returns[OF this] None show False by auto
  qed
  then have "rejection_loop_fp exact r g = None"
    by (intro rejection_loop_fp_None) (simp add: accepted_fp_exact)
  with None show ?thesis by simp
next
  case (Some res)
  from rejection_loop_Some[OF Some] obtain k where k: "accepted r (sdrop (2 * k) g)"
    "\<forall>j<k. \<not> accepted r (sdrop (2 * j) g)"
    "res = (candidate r (sdrop (2 * k) g), sdrop (2 * k + 2) g)"
    by blast
  from k(1,2) have "rejection_loop_fp exact r g
      = Some (candidate_fp exact r (sdrop (2 * k) g), sdrop (2 * k + 2) g)"
    by (intro rejection_loop_fp_first) (simp_all add: accepted_fp_exact)
  with Some k(3) show ?thesis by (simp add: candidate_fp_exact)
qed

lemma GenNostril_for_fp_exact:
  "GenNostril_for_fp n exact w ti r pId M st = GenNostril_for n w ti r pId M st"
  by (induction n arbitrary: pId st)
     (simp_all add: rejection_loop_fp_exact RotTrans_fp_exact split: option.splits sum.splits prod.splits)

lemma GenNostril_fp_exact:
  "GenNostril_fp exact cfg ti r pId M st = GenNostril cfg ti r pId M st"
  by (simp add: GenNostril_fp_def GenNostril_def GenNostril_for_fp_exact)

subsection \<open>The transform\<close>

lemma RotTrans_row_fp_ok:
  assumes "i < length rotTrans" "length (rotTrans ! i) = 4" "length p = 3"
  shows "RotTrans_row_fp A rotTrans p i =
     Inr (fadd A (fadd A (fadd A (fmul A (rotTrans ! i ! 0) (p ! 0))
                                   (fmul A (rotTrans ! i ! 1) (p ! 1)))
                          (fmul A (rotTrans ! i ! 2) (p ! 2)))
                 (rotTrans ! i ! 3))"
  using assms by (simp add: RotTrans_row_fp_def index_def del: length_greater_0_conv)

lemma RotTrans_fp_ok:
  assumes "well_shaped rotTrans" and "length p = 3"
  shows "\<exists>c. RotTrans_fp A rotTrans p = Inr c \<and> length c = 3"
proof -
  from assms(1) have len: "length rotTrans = 3" and rows: "\<forall>row \<in> set rotTrans. length row = 4"
    by (simp_all add: well_shaped_def list_all_iff)
  have "length (rotTrans ! i) = 4" if "i < 3" for i
    using len rows that by simp
  then show ?thesis
    using len assms(2) by (simp add: RotTrans_fp_def RotTrans_row_fp_ok)
qed

subsection \<open>The samples\<close>

lemma GenNostril_for_fp_first:
  assumes "well_shaped M" and "length ks = n" and "sorted_wrt (<) ks"
    and "\<forall>k \<in> set ks. accepted_fp A r (sdrop (2 * k) (rand st))"
  shows "\<exists>js cs. length js = n \<and> sorted_wrt (<) js
     \<and> (\<forall>j \<in> set js. accepted_fp A r (sdrop (2 * j) (rand st)))
     \<and> (\<forall>j k. k \<in> set js \<and> j < k \<and> accepted_fp A r (sdrop (2 * j) (rand st)) \<longrightarrow> j \<in> set js)
     \<and> list_all2 (\<lambda>j c. RotTrans_fp A M [fst (candidate_fp A r (sdrop (2 * j) (rand st))),
                                          snd (candidate_fp A r (sdrop (2 * j) (rand st))), 0] = Inr c)
          js cs
     \<and> GenNostril_for_fp n A w ti r pId M st
        = Some (Inr (pId + int n),
            \<lparr>file_handle = file_handle st @ emit w ti pId cs,
             rand = sdrop (2 * pairs_read js) (rand st)\<rparr>)"
  using assms(2-4)
proof (induction n arbitrary: pId st ks)
  case 0
  show ?case
    by (intro exI[of _ "[]"]) (simp add: pairs_read_def)
next
  case (Suc n)
  let ?g = "rand st"
  from Suc.prems(1) obtain k0 ks' where ks: "ks = k0 # ks'" and len': "length ks' = n"
    by (cases ks) auto
  from Suc.prems(3) ks have "accepted_fp A r (sdrop (2 * k0) ?g)" by simp
  from rejection_loop_fp_least[OF this] obtain k where k: "k \<le> k0"
    and acck: "accepted_fp A r (sdrop (2 * k) ?g)"
    and rejk: "\<forall>j<k. \<not> accepted_fp A r (sdrop (2 * j) ?g)"
    and rl: "rejection_loop_fp A r ?g
          = Some (candidate_fp A r (sdrop (2 * k) ?g), sdrop (2 * k + 2) ?g)"
    by blast
  obtain x y where xy: "candidate_fp A r (sdrop (2 * k) ?g) = (x, y)"
    by (cases "candidate_fp A r (sdrop (2 * k) ?g)")
  obtain c where c: "RotTrans_fp A M [x, y, 0] = Inr c" and len: "length c = 3"
    using RotTrans_fp_ok[OF assms(1), of "[x, y, 0]" A] by auto
  let ?st = "\<lparr>file_handle = file_handle st @ [particle_line w ti pId c],
              rand = sdrop (2 * k + 2) ?g\<rparr>"
  let ?ks = "map (\<lambda>j. j - (k + 1)) ks'"
  have shift: "sdrop (2 * j) (rand ?st) = sdrop (2 * (j + (k + 1))) ?g" for j
    by (simp add: sdrop_add add.commute)
  from Suc.prems(2) ks have above: "\<forall>j \<in> set ks'. k0 < j" and sorted': "sorted_wrt (<) ks'"
    by simp_all
  from above k have ge: "\<forall>j \<in> set ks'. k + 1 \<le> j" by auto
  have "length ?ks = n" using len' by simp
  moreover have "sorted_wrt (<) ?ks"
    unfolding sorted_wrt_map
    by (rule sorted_wrt_mono_rel[OF _ sorted']) (use ge in auto)
  moreover have "\<forall>j \<in> set ?ks. accepted_fp A r (sdrop (2 * j) (rand ?st))"
  proof
    fix j assume "j \<in> set ?ks"
    then obtain i where i: "i \<in> set ks'" "j = i - (k + 1)" by auto
    with ge have eq: "j + (k + 1) = i" by auto
    from i(1) Suc.prems(3) ks have "accepted_fp A r (sdrop (2 * i) ?g)" by simp
    then show "accepted_fp A r (sdrop (2 * j) (rand ?st))"
      unfolding shift eq .
  qed
  ultimately obtain js cs where IH:
    "length js = n" "sorted_wrt (<) js"
    "\<forall>j \<in> set js. accepted_fp A r (sdrop (2 * j) (rand ?st))"
    "\<forall>j k. k \<in> set js \<and> j < k \<and> accepted_fp A r (sdrop (2 * j) (rand ?st)) \<longrightarrow> j \<in> set js"
    "list_all2 (\<lambda>j c. RotTrans_fp A M [fst (candidate_fp A r (sdrop (2 * j) (rand ?st))),
                                       snd (candidate_fp A r (sdrop (2 * j) (rand ?st))), 0] = Inr c)
          js cs"
    "GenNostril_for_fp n A w ti r (pId + 1) M ?st
        = Some (Inr (pId + 1 + int n),
            \<lparr>file_handle = file_handle ?st @ emit w ti (pId + 1) cs,
             rand = sdrop (2 * pairs_read js) (rand ?st)\<rparr>)"
    using Suc.IH[of ?ks ?st "pId + 1"] by blast
  let ?js = "k # map (\<lambda>j. j + (k + 1)) js"
  have 1: "length ?js = Suc n" using IH(1) by simp
  have 2: "sorted_wrt (<) ?js"
    using IH(2) by (simp add: sorted_wrt_map)
  have 3: "\<forall>j \<in> set ?js. accepted_fp A r (sdrop (2 * j) ?g)"
    using acck IH(3) unfolding shift by auto
  have 4: "\<forall>j i. i \<in> set ?js \<and> j < i \<and> accepted_fp A r (sdrop (2 * j) ?g) \<longrightarrow> j \<in> set ?js"
  proof (intro allI impI)
    fix j i assume a: "i \<in> set ?js \<and> j < i \<and> accepted_fp A r (sdrop (2 * j) ?g)"
    show "j \<in> set ?js"
    proof (cases "j \<le> k")
      case True
      with a rejk have "j = k" by (metis le_neq_implies_less)
      then show ?thesis by simp
    next
      case False
      then obtain j' where j': "j = j' + (k + 1)" by (metis add.commute le_Suc_ex not_less_eq_eq Suc_eq_plus1)
      from a False have "i \<noteq> k" by auto
      with a obtain i' where i': "i' \<in> set js" "i = i' + (k + 1)" by auto
      from a j' i' have "j' < i'" by simp
      moreover from a j' have "accepted_fp A r (sdrop (2 * j') (rand ?st))"
        unfolding shift by simp
      ultimately have "j' \<in> set js" using IH(4) i'(1) by blast
      with j' show ?thesis by simp
    qed
  qed
  have 5: "list_all2 (\<lambda>j c. RotTrans_fp A M [fst (candidate_fp A r (sdrop (2 * j) ?g)),
                                       snd (candidate_fp A r (sdrop (2 * j) ?g)), 0] = Inr c)
          ?js (c # cs)"
    using IH(5) c xy unfolding shift by (simp add: list_all2_map1)
  have pr: "pairs_read ?js = pairs_read js + (k + 1)"
    by (simp add: pairs_read_def last_map)
  have "sdrop (2 * pairs_read js) (rand ?st) = sdrop (2 * pairs_read ?js) ?g"
    unfolding shift pr ..
  with IH(6) have 6: "GenNostril_for_fp (Suc n) A w ti r pId M st
        = Some (Inr (pId + int (Suc n)),
            \<lparr>file_handle = file_handle st @ emit w ti pId (c # cs),
             rand = sdrop (2 * pairs_read ?js) ?g\<rparr>)"
    using rl xy c len by (simp add: call_whichOutput_length3 add.assoc)
  from 1 2 3 4 5 6 show ?case
    by (intro exI[of _ ?js] exI[of _ "c # cs"] conjI)
qed

lemma accepted_fp_two:
  "accepted_fp A r (a ## b ## g) = accepted_fp A r (a ## b ## g')"
  by (simp add: accepted_fp_def candidate_fp_def uniform_fp_def)

lemma candidate_fp_two:
  "candidate_fp A r (a ## b ## g) = candidate_fp A r (a ## b ## g')"
  by (simp add: candidate_fp_def uniform_fp_def)

lemma retries_forced:
  assumes "\<not> accepted_fp A r (a ## a' ## g)" and "accepted_fp A r (b ## b' ## g)"
  shows "rejection_loop_fp A r (concat (replicate k [a, a']) @- b ## b' ## g)
     = Some (candidate_fp A r (b ## b' ## g), g)"
proof (induction k)
  case 0
  from assms(2) show ?case by (subst rejection_loop_fp_unfold) simp
next
  case (Suc k)
  have "\<not> accepted_fp A r (a ## a' ## (concat (replicate k [a, a']) @- b ## b' ## g))"
    using assms(1) accepted_fp_two by blast
  then show ?case
    by (subst rejection_loop_fp_unfold) (simp add: Suc.IH)
qed

text \<open>
  Under an arithmetic whose products underflow the test never passes at radius
  \<open>1 / 10 ^ 200\<close>, whose square is zero there, and the loop does not return.
\<close>

lemma underflowing_None: "rejection_loop_fp underflowing (1 / 10 ^ 200) g = None"
proof (rule rejection_loop_fp_None, intro allI)
  fix k
  have sq: "0 \<le> fmul underflowing a a" for a
    by (simp add: underflowing_def exact_def)
  have "(1 / 10 ^ 200 :: real) * (1 / 10 ^ 200) < 1 / 2 ^ 1075"
    by simp
  then have "fmul underflowing (1 / 10 ^ 200) (1 / 10 ^ 200) = 0"
    by (simp add: underflowing_def exact_def)
  moreover have "fadd underflowing = (+)" "fless underflowing = (<)"
    by (simp_all add: underflowing_def exact_def)
  ultimately show "\<not> accepted_fp underflowing (1 / 10 ^ 200) (sdrop (2 * k) g)"
    unfolding accepted_fp_def using sq by (simp add: not_less)
qed

text \<open>
  C8. Whatever the arithmetic of the machine is: when the generator holds, at \<open>nostrilCount\<close>
  (2 in the source) different pair positions, candidate pairs that pass the test
  \<^verbatim>\<open>x*x + y*y < radius*radius\<close> of the loop, \<^verbatim>\<open>GenNostril\<close> with a 3x4 matrix returns,
  and what it has done is determined by the generator: its samples are the candidates at the
  first \<open>nostrilCount\<close> pair positions \<open>js\<close> that pass the test, it has appended the
  transforms of exactly these, in this order, as \<open>nostrilCount\<close> lines, and it leaves the
  generator behind the last of them. The rejection loop returns the first candidate that
  passes the test after any number \<open>k\<close> of rejected ones, and does not return when none
  passes; a generator that repeats a rejected pair \<open>k\<close> times before an accepted one makes
  it retry exactly \<open>k\<close> times, for every \<open>k\<close>. The time step and the counter are taken of
  magnitude below \<open>2 ^ 1000\<close>, where the division \<^verbatim>\<open>ti / 1000.0\<close> of the writer is
  defined. Under the arithmetic of the reals this sampler is \<open>GenNostril\<close> of the sections
  above.
\<close>

theorem nostril_sampler_terminates:
  assumes "well_shaped rotTrans" and "length ks = nostrilCount cfg" and "sorted_wrt (<) ks"
    and "\<forall>k \<in> set ks. accepted_fp A r (sdrop (2 * k) (rand st))"
    and "\<bar>ti\<bar> < 2 ^ 1000" and "\<bar>pId\<bar> < 2 ^ 1000"
  shows "(\<exists>js cs. length js = nostrilCount cfg \<and> sorted_wrt (<) js
            \<and> (\<forall>j \<in> set js. accepted_fp A r (sdrop (2 * j) (rand st)))
            \<and> (\<forall>j k. k \<in> set js \<and> j < k \<and> accepted_fp A r (sdrop (2 * j) (rand st))
                  \<longrightarrow> j \<in> set js)
            \<and> list_all2
                 (\<lambda>j c. RotTrans_fp A rotTrans
                           [fst (candidate_fp A r (sdrop (2 * j) (rand st))),
                            snd (candidate_fp A r (sdrop (2 * j) (rand st))), 0] = Inr c)
                 js cs
            \<and> GenNostril_fp A cfg ti r pId rotTrans st
                = Some (Inr (pId + int (nostrilCount cfg)),
                    \<lparr>file_handle = file_handle st @ emit (whichOutput cfg) ti pId cs,
                     rand = sdrop (2 * pairs_read js) (rand st)\<rparr>))
     \<and> (\<forall>g k. accepted_fp A r (sdrop (2 * k) g) \<and> (\<forall>j<k. \<not> accepted_fp A r (sdrop (2 * j) g))
          \<longrightarrow> rejection_loop_fp A r g
                = Some (candidate_fp A r (sdrop (2 * k) g), sdrop (2 * k + 2) g))
     \<and> (\<forall>g. (\<forall>k. \<not> accepted_fp A r (sdrop (2 * k) g)) \<longrightarrow> rejection_loop_fp A r g = None)
     \<and> (\<forall>k a a' b b' g. \<not> accepted_fp A r (a ## a' ## g) \<and> accepted_fp A r (b ## b' ## g)
          \<longrightarrow> rejection_loop_fp A r (concat (replicate k [a, a']) @- b ## b' ## g)
                = Some (candidate_fp A r (b ## b' ## g), g))
     \<and> GenNostril_fp exact cfg ti r pId rotTrans st = GenNostril cfg ti r pId rotTrans st"
proof (intro conjI allI impI)
  from GenNostril_for_fp_first[OF assms(1-4), of "whichOutput cfg" ti pId]
  show "\<exists>js cs. length js = nostrilCount cfg \<and> sorted_wrt (<) js
            \<and> (\<forall>j \<in> set js. accepted_fp A r (sdrop (2 * j) (rand st)))
            \<and> (\<forall>j k. k \<in> set js \<and> j < k \<and> accepted_fp A r (sdrop (2 * j) (rand st))
                  \<longrightarrow> j \<in> set js)
            \<and> list_all2
                 (\<lambda>j c. RotTrans_fp A rotTrans
                           [fst (candidate_fp A r (sdrop (2 * j) (rand st))),
                            snd (candidate_fp A r (sdrop (2 * j) (rand st))), 0] = Inr c)
                 js cs
            \<and> GenNostril_fp A cfg ti r pId rotTrans st
                = Some (Inr (pId + int (nostrilCount cfg)),
                    \<lparr>file_handle = file_handle st @ emit (whichOutput cfg) ti pId cs,
                     rand = sdrop (2 * pairs_read js) (rand st)\<rparr>)"
    unfolding GenNostril_fp_def .
next
  fix g k
  assume "accepted_fp A r (sdrop (2 * k) g) \<and> (\<forall>j<k. \<not> accepted_fp A r (sdrop (2 * j) g))"
  then show "rejection_loop_fp A r g
      = Some (candidate_fp A r (sdrop (2 * k) g), sdrop (2 * k + 2) g)"
    by (intro rejection_loop_fp_first) auto
next
  fix g
  assume "\<forall>k. \<not> accepted_fp A r (sdrop (2 * k) g)"
  then show "rejection_loop_fp A r g = None" by (rule rejection_loop_fp_None)
next
  fix k a a' b b' g
  assume "\<not> accepted_fp A r (a ## a' ## g) \<and> accepted_fp A r (b ## b' ## g)"
  then show "rejection_loop_fp A r (concat (replicate k [a, a']) @- b ## b' ## g)
      = Some (candidate_fp A r (b ## b' ## g), g)"
    by (intro retries_forced) auto
next
  show "GenNostril_fp exact cfg ti r pId rotTrans st = GenNostril cfg ti r pId rotTrans st"
    by (rule GenNostril_fp_exact)
qed

section \<open>One time step\<close>

lemma time_step_resting:
  assumes "cyclePeriod cfg \<noteq> 0" and "\<not> exhaling cfg ti"
  shows "time_step cfg ti pId st = Some (Inr pId, st)"
  using assms by (auto simp add: time_step_def py_mod_def exhaling_def)

lemma time_step_exhaling:
  assumes "cyclePeriod cfg \<noteq> 0" and "exhaling cfg ti"
  shows "time_step cfg ti pId st =
     (case GenNostril cfg ti (radius cfg) (pId + int (mouthCount cfg)) (leftRotTrans cfg)
             \<lparr>file_handle = file_handle st
                @ emit (whichOutput cfg) ti pId (mouth_coords cfg (mouthCount cfg) (rand st)),
              rand = sdrop (2 * mouthCount cfg) (rand st)\<rparr> of
        None \<Rightarrow> None
      | Some (Inl e, st2) \<Rightarrow> Some (Inl e, st2)
      | Some (Inr pId2, st2) \<Rightarrow> GenNostril cfg ti (radius cfg) pId2 (rightRotTrans cfg) st2)"
  using assms by (simp add: time_step_def py_mod_def exhaling_def mouth_for_eq)

lemma time_step_Inr:
  assumes ret: "time_step cfg ti pId st = Some (Inr pId', st')"
    and "cyclePeriod cfg \<noteq> 0" and "exhaling cfg ti"
  shows "\<exists>ps qs ls rs.
       length ps = nostrilCount cfg \<and> length qs = nostrilCount cfg
     \<and> (\<forall>p \<in> set ps \<union> set qs. fst p * fst p + snd p * snd p < radius cfg * radius cfg)
     \<and> list_all2 (\<lambda>p c. RotTrans (leftRotTrans cfg) [fst p, snd p, 0] = Inr c) ps ls
     \<and> list_all2 (\<lambda>p c. RotTrans (rightRotTrans cfg) [fst p, snd p, 0] = Inr c) qs rs
     \<and> file_handle st' = file_handle st
         @ emit (whichOutput cfg) ti pId (mouth_coords cfg (mouthCount cfg) (rand st) @ ls @ rs)
     \<and> pId' = pId + int (mouthCount cfg + 2 * nostrilCount cfg)
     \<and> (\<exists>j. rand st' = sdrop j (rand st))"
proof -
  let ?w = "whichOutput cfg"
  let ?ms = "mouth_coords cfg (mouthCount cfg) (rand st)"
  let ?st1 = "\<lparr>file_handle = file_handle st @ emit ?w ti pId ?ms,
               rand = sdrop (2 * mouthCount cfg) (rand st)\<rparr>"
  let ?pId1 = "pId + int (mouthCount cfg)"
  from ret obtain pId2 st2 where
    left: "GenNostril cfg ti (radius cfg) ?pId1 (leftRotTrans cfg) ?st1 = Some (Inr pId2, st2)"
    and right: "GenNostril cfg ti (radius cfg) pId2 (rightRotTrans cfg) st2 = Some (Inr pId', st')"
    unfolding time_step_exhaling[OF assms(2,3)]
    by (auto split: option.splits sum.splits)
  from GenNostril_for_Inr[OF left[unfolded GenNostril_def]] obtain ps ls j1 where L:
    "length ps = nostrilCount cfg"
    "\<forall>p \<in> set ps. fst p * fst p + snd p * snd p < radius cfg * radius cfg"
    "list_all2 (\<lambda>p c. RotTrans (leftRotTrans cfg) [fst p, snd p, 0] = Inr c) ps ls"
    "file_handle st2 = file_handle ?st1 @ emit ?w ti ?pId1 ls"
    "pId2 = ?pId1 + int (nostrilCount cfg)" "rand st2 = sdrop j1 (rand ?st1)"
    by auto
  from GenNostril_for_Inr[OF right[unfolded GenNostril_def]] obtain qs rs j2 where R:
    "length qs = nostrilCount cfg"
    "\<forall>p \<in> set qs. fst p * fst p + snd p * snd p < radius cfg * radius cfg"
    "list_all2 (\<lambda>p c. RotTrans (rightRotTrans cfg) [fst p, snd p, 0] = Inr c) qs rs"
    "file_handle st' = file_handle st2 @ emit ?w ti pId2 rs"
    "pId' = pId2 + int (nostrilCount cfg)" "rand st' = sdrop j2 (rand st2)"
    by auto
  from L(1,3) have lenl: "length ls = nostrilCount cfg" by (simp add: list_all2_lengthD[symmetric])
  have "file_handle st' = file_handle st @ emit ?w ti pId (?ms @ ls @ rs)"
    using L(4,5) R(4) lenl by (simp add: emit_append)
  moreover have "pId' = pId + int (mouthCount cfg + 2 * nostrilCount cfg)"
    using L(5) R(5) by simp
  moreover have "rand st' = sdrop (2 * mouthCount cfg + j1 + j2) (rand st)"
    using L(6) R(6) by (simp add: sdrop_add)
  then have "\<exists>j. rand st' = sdrop j (rand st)" ..
  moreover have "\<forall>p \<in> set ps \<union> set qs. fst p * fst p + snd p * snd p < radius cfg * radius cfg"
    using L(2) R(2) by blast
  ultimately show ?thesis using L(1,3) R(1,3) by blast
qed

lemma fair_sdrop:
  assumes "\<forall>m. \<exists>k. accepted r (sdrop (m + 2 * k) g)"
  shows "\<forall>m. \<exists>k. accepted r (sdrop (m + 2 * k) (sdrop j g))"
proof
  fix m
  from assms obtain k where "accepted r (sdrop ((j + m) + 2 * k) g)" by blast
  then have "accepted r (sdrop (m + 2 * k) (sdrop j g))"
    by (simp add: sdrop_add add.assoc)
  then show "\<exists>k. accepted r (sdrop (m + 2 * k) (sdrop j g))" ..
qed

lemma time_step_returns:
  assumes "cyclePeriod cfg \<noteq> 0" and "well_shaped (leftRotTrans cfg)"
    and "well_shaped (rightRotTrans cfg)"
    and fair: "\<forall>m. \<exists>k. accepted (radius cfg) (sdrop (m + 2 * k) (rand st))"
  shows "\<exists>pId' st' j. time_step cfg ti pId st = Some (Inr pId', st') \<and> rand st' = sdrop j (rand st)"
proof (cases "exhaling cfg ti")
  case False
  with assms(1) have "time_step cfg ti pId st = Some (Inr pId, st)" by (rule time_step_resting)
  moreover have "rand st = sdrop 0 (rand st)" by simp
  ultimately show ?thesis by blast
next
  case True
  let ?w = "whichOutput cfg"
  let ?st1 = "\<lparr>file_handle = file_handle st
                @ emit ?w ti pId (mouth_coords cfg (mouthCount cfg) (rand st)),
               rand = sdrop (2 * mouthCount cfg) (rand st)\<rparr>"
  let ?pId1 = "pId + int (mouthCount cfg)"
  have "\<forall>m. \<exists>k. accepted (radius cfg) (sdrop (m + 2 * k) (rand ?st1))"
    using fair_sdrop[OF fair] by simp
  from GenNostril_for_returns_fair[OF assms(2) this] obtain pId2 st2 where
    left: "GenNostril cfg ti (radius cfg) ?pId1 (leftRotTrans cfg) ?st1 = Some (Inr pId2, st2)"
    unfolding GenNostril_def by blast
  from GenNostril_for_Inr[OF left[unfolded GenNostril_def]] obtain j1 where
    j1: "rand st2 = sdrop j1 (rand ?st1)" by blast
  then have "\<forall>m. \<exists>k. accepted (radius cfg) (sdrop (m + 2 * k) (rand st2))"
    using fair_sdrop[OF fair, of "2 * mouthCount cfg + j1"] by (simp add: sdrop_add)
  from GenNostril_for_returns_fair[OF assms(3) this] obtain pId' st' where
    right: "GenNostril cfg ti (radius cfg) pId2 (rightRotTrans cfg) st2 = Some (Inr pId', st')"
    unfolding GenNostril_def by blast
  from GenNostril_for_Inr[OF right[unfolded GenNostril_def]] obtain j2 where
    j2: "rand st' = sdrop j2 (rand st2)" by blast
  have "time_step cfg ti pId st = Some (Inr pId', st')"
    unfolding time_step_exhaling[OF assms(1) True] using left right by simp
  moreover have "rand st' = sdrop (2 * mouthCount cfg + j1 + j2) (rand st)"
    using j1 j2 by (simp add: sdrop_add)
  ultimately show ?thesis by blast
qed

section \<open>The main loop\<close>

lemma position_particle_line:
  assumes "length c = 3"
  shows "position (particle_line w ti pId c) = c"
proof -
  from assms obtain x y z where "c = [x, y, z]"
    by (cases c; cases "tl c"; cases "tl (tl c)") auto
  then show ?thesis by (cases w) (simp_all add: particle_line_def)
qed

lemma is_batch_emit:
  assumes "\<forall>c \<in> set cs. length c = 3"
  shows "is_batch w ti pId (emit w ti pId cs)"
proof -
  have "map position (emit w ti pId cs) = cs"
    using assms by (induction cs arbitrary: pId) (simp_all add: position_particle_line)
  then show ?thesis by (simp add: is_batch_def)
qed

lemma mouth_coords_length3: "\<forall>c \<in> set (mouth_coords cfg n g). length c = 3"
  by (induction n arbitrary: g) simp_all

lemma list_all2_RotTrans_length3:
  assumes "list_all2 (\<lambda>p c. RotTrans M [fst p, snd p, 0] = Inr c) ps cs"
  shows "\<forall>c \<in> set cs. length c = 3"
  using assms by (induction rule: list_all2_induct) (auto dest: RotTrans_Inr_length)

lemma time_step_batch:
  assumes "time_step cfg ti pId st = Some (Inr pId', st')" and "cyclePeriod cfg \<noteq> 0"
  shows "\<exists>b. file_handle st' = file_handle st @ b \<and> is_batch (whichOutput cfg) ti pId b
     \<and> length b = batch_size cfg ti \<and> pId' = pId + int (length b)
     \<and> (\<exists>j. rand st' = sdrop j (rand st))"
proof (cases "exhaling cfg ti")
  case False
  with assms have "st' = st" "pId' = pId" by (simp_all add: time_step_resting)
  moreover have "rand st = sdrop 0 (rand st)" by simp
  then have "\<exists>j. rand st = sdrop j (rand st)" ..
  ultimately show ?thesis using False
    by (intro exI[of _ "[]"]) (simp add: is_batch_def batch_size_def)
next
  case True
  from time_step_Inr[OF assms True] obtain ps qs ls rs where *:
    "length ps = nostrilCount cfg" "length qs = nostrilCount cfg"
    "list_all2 (\<lambda>p c. RotTrans (leftRotTrans cfg) [fst p, snd p, 0] = Inr c) ps ls"
    "list_all2 (\<lambda>p c. RotTrans (rightRotTrans cfg) [fst p, snd p, 0] = Inr c) qs rs"
    "file_handle st' = file_handle st
         @ emit (whichOutput cfg) ti pId (mouth_coords cfg (mouthCount cfg) (rand st) @ ls @ rs)"
    "pId' = pId + int (mouthCount cfg + 2 * nostrilCount cfg)"
    "\<exists>j. rand st' = sdrop j (rand st)"
    by blast
  let ?cs = "mouth_coords cfg (mouthCount cfg) (rand st) @ ls @ rs"
  from *(1-4) have len: "length ?cs = mouthCount cfg + 2 * nostrilCount cfg"
    by (simp add: list_all2_lengthD[symmetric])
  have "\<forall>c \<in> set ?cs. length c = 3"
    using mouth_coords_length3 list_all2_RotTrans_length3[OF *(3)]
      list_all2_RotTrans_length3[OF *(4)] by auto
  then have "is_batch (whichOutput cfg) ti pId (emit (whichOutput cfg) ti pId ?cs)"
    by (rule is_batch_emit)
  with *(5-7) len True show ?thesis
    by (intro exI[of _ "emit (whichOutput cfg) ti pId ?cs"]) (simp add: batch_size_def)
qed

lemma time_step_Inr_period:
  assumes "time_step cfg ti pId st = Some (Inr pId', st')"
  shows "cyclePeriod cfg \<noteq> 0"
  using assms by (auto simp add: time_step_def py_mod_def)

lemma time_loop_Inr:
  assumes "time_loop cfg tis pId st = Some (Inr pId', st')"
  shows "\<exists>bs. batches_ok cfg tis pId bs \<and> file_handle st' = file_handle st @ concat bs
     \<and> pId' = pId + int (length (concat bs))"
  using assms
proof (induction tis arbitrary: pId st)
  case Nil
  then show ?case by simp
next
  case (Cons ti tis)
  from Cons.prems obtain pId1 st1 where
    step: "time_step cfg ti pId st = Some (Inr pId1, st1)"
    and rest: "time_loop cfg tis pId1 st1 = Some (Inr pId', st')"
    by (auto split: option.splits sum.splits)
  from step have "cyclePeriod cfg \<noteq> 0" by (rule time_step_Inr_period)
  from time_step_batch[OF step this] obtain b where b:
    "file_handle st1 = file_handle st @ b" "is_batch (whichOutput cfg) ti pId b"
    "length b = batch_size cfg ti" "pId1 = pId + int (length b)"
    by blast
  from Cons.IH[OF rest] obtain bs where bs:
    "batches_ok cfg tis pId1 bs" "file_handle st' = file_handle st1 @ concat bs"
    "pId' = pId1 + int (length (concat bs))"
    by blast
  have "batches_ok cfg (ti # tis) pId (b # bs)" using b bs(1) by simp
  moreover have "file_handle st' = file_handle st @ concat (b # bs)" using b(1) bs(2) by simp
  moreover have "pId' = pId + int (length (concat (b # bs)))" using b(4) bs(3) by simp
  ultimately show ?case by blast
qed

lemma time_loop_returns:
  assumes "cyclePeriod cfg \<noteq> 0" and "well_shaped (leftRotTrans cfg)"
    and "well_shaped (rightRotTrans cfg)"
    and "\<forall>m. \<exists>k. accepted (radius cfg) (sdrop (m + 2 * k) (rand st))"
  shows "\<exists>pId' st'. time_loop cfg tis pId st = Some (Inr pId', st')"
  using assms(4)
proof (induction tis arbitrary: pId st)
  case Nil
  then show ?case by simp
next
  case (Cons ti tis)
  from time_step_returns[OF assms(1-3) Cons.prems] obtain pId1 st1 j where
    step: "time_step cfg ti pId st = Some (Inr pId1, st1)" and j: "rand st1 = sdrop j (rand st)"
    by blast
  from fair_sdrop[OF Cons.prems, of j] j
  have "\<forall>m. \<exists>k. accepted (radius cfg) (sdrop (m + 2 * k) (rand st1))" by simp
  from Cons.IH[OF this] obtain pId' st' where
    "time_loop cfg tis pId1 st1 = Some (Inr pId', st')" by blast
  with step show ?case by simp
qed

lemma batches_ok_Cons:
  assumes "batches_ok cfg (ti # tis) pId bs"
  obtains b bs' where "bs = b # bs'" and "is_batch (whichOutput cfg) ti pId b"
    and "length b = batch_size cfg ti" and "batches_ok cfg tis (pId + int (length b)) bs'"
  using assms by (cases bs) auto

lemma batches_ok_length:
  assumes "batches_ok cfg tis pId bs"
  shows "length bs = length tis"
  using assms
proof (induction tis arbitrary: pId bs)
  case Nil
  then show ?case by simp
next
  case (Cons ti tis)
  from Cons.prems obtain b bs' where "bs = b # bs'"
    "batches_ok cfg tis (pId + int (length b)) bs'"
    by (rule batches_ok_Cons)
  with Cons.IH show ?case by simp
qed

lemma batches_ok_total:
  assumes "batches_ok cfg tis pId bs"
  shows "length (concat bs) = sum_list (map (batch_size cfg) tis)"
  using assms
proof (induction tis arbitrary: pId bs)
  case Nil
  then show ?case by simp
next
  case (Cons ti tis)
  from Cons.prems obtain b bs' where "bs = b # bs'" "length b = batch_size cfg ti"
    "batches_ok cfg tis (pId + int (length b)) bs'"
    by (rule batches_ok_Cons)
  with Cons.IH show ?case by simp
qed

lemma batches_ok_nth:
  assumes "batches_ok cfg tis pId bs" and "i < length tis"
  shows "is_batch (whichOutput cfg) (tis ! i) (pId + int (length (concat (take i bs)))) (bs ! i)
     \<and> length (bs ! i) = batch_size cfg (tis ! i)"
  using assms
proof (induction tis arbitrary: pId bs i)
  case Nil
  then show ?case by simp
next
  case (Cons ti tis)
  from Cons.prems(1) obtain b bs' where bs: "bs = b # bs'"
    and b: "is_batch (whichOutput cfg) ti pId b" "length b = batch_size cfg ti"
    and rest: "batches_ok cfg tis (pId + int (length b)) bs'"
    by (rule batches_ok_Cons)
  show ?case
  proof (cases i)
    case 0
    with bs b show ?thesis by simp
  next
    case (Suc i')
    with Cons.prems(2) have "i' < length tis" by simp
    from Cons.IH[OF rest this] Suc bs show ?thesis by (simp add: add.assoc)
  qed
qed

lemma written_ids_append: "written_ids (xs @ ys) = written_ids xs @ written_ids ys"
  by (simp add: written_ids_def map_filter_def)

lemma written_id_particle_line: "written_id (particle_line w ti pId c) = Some (first_id w + pId)"
  by (cases w) (simp_all add: particle_line_def)

lemma upt_Suc_shift: "0 # map Suc [0..<n] = [0..<Suc n]"
  by (simp add: map_Suc_upt upt_conv_Cons del: upt_Suc)

lemma map_upt_shift: "map (\<lambda>k. f (l + k)) [0..<n] = map f [l..<l + n]"
  by (induction n) simp_all

lemma written_ids_emit:
  "written_ids (emit w ti pId cs) = map (\<lambda>k. first_id w + pId + int k) [0..<length cs]"
proof (induction cs arbitrary: pId)
  case Nil
  then show ?case by (simp add: written_ids_def map_filter_def)
next
  case (Cons c cs)
  have "written_ids (emit w ti pId (c # cs))
      = (first_id w + pId) # written_ids (emit w ti (pId + 1) cs)"
    by (simp add: written_ids_def map_filter_def written_id_particle_line)
  also have "\<dots> = (first_id w + pId) # map (\<lambda>k. first_id w + (pId + 1) + int k) [0..<length cs]"
    by (simp only: Cons.IH)
  also have "\<dots> = map (\<lambda>k. first_id w + pId + int k) (0 # map Suc [0..<length cs])"
    by (simp add: comp_def add.assoc)
  also have "0 # map Suc [0..<length cs] = [0..<length (c # cs)]"
    using upt_Suc_shift[of "length cs"] by (simp del: upt_Suc)
  finally show ?case .
qed

lemma batches_ok_ids:
  assumes "batches_ok cfg tis pId bs"
  shows "written_ids (concat bs)
     = map (\<lambda>k. first_id (whichOutput cfg) + pId + int k) [0..<length (concat bs)]"
  using assms
proof (induction tis arbitrary: pId bs)
  case Nil
  then show ?case by (simp add: written_ids_def map_filter_def)
next
  case (Cons ti tis)
  let ?f = "first_id (whichOutput cfg)"
  from Cons.prems obtain b bs' where bs: "bs = b # bs'"
    and isb: "is_batch (whichOutput cfg) ti pId b"
    and rest: "batches_ok cfg tis (pId + int (length b)) bs'"
    by (rule batches_ok_Cons)
  from isb have b: "b = emit (whichOutput cfg) ti pId (map position b)"
    by (simp add: is_batch_def)
  have "written_ids b = map (\<lambda>k. ?f + pId + int k) [0..<length b]"
    by (subst b, subst written_ids_emit) simp
  moreover have "written_ids (concat bs')
      = map (\<lambda>k. ?f + (pId + int (length b)) + int k) [0..<length (concat bs')]"
    using Cons.IH[OF rest] .
  moreover have "map (\<lambda>k. ?f + (pId + int (length b)) + int k) [0..<length (concat bs')]
      = map (\<lambda>k. ?f + pId + int k) [length b..<length b + length (concat bs')]"
    using map_upt_shift[of "\<lambda>k. ?f + pId + int k" "length b" "length (concat bs')"]
    by (simp add: add.assoc)
  ultimately have "written_ids (concat bs)
      = map (\<lambda>k. ?f + pId + int k) ([0..<length b] @ [length b..<length b + length (concat bs')])"
    using bs by (simp add: written_ids_append)
  also have "[0..<length b] @ [length b..<length b + length (concat bs')]
      = [0..<length (concat bs)]"
    using bs by (simp add: upt_add_eq_append[symmetric])
  finally show ?case .
qed

section \<open>The whole run\<close>

lemma written_ids_preamble: "written_ids (preamble cfg) = []"
  by (simp add: preamble_def header_def written_ids_def map_filter_def)

lemma run_Inr:
  assumes "NoseParticleGeneration cfg g = Some (Inr n, st)"
  shows "\<exists>tis bs. range_py 0 (runLength cfg + step cfg) (step cfg) = Inr tis
     \<and> batches_ok cfg tis 0 bs
     \<and> file_handle st = preamble cfg @ concat bs
     \<and> n = int (length (concat bs))"
proof -
  let ?st0 = "\<lparr>file_handle = preamble cfg, rand = g\<rparr>"
  from assms obtain tis where tis: "range_py 0 (runLength cfg + step cfg) (step cfg) = Inr tis"
    and loop: "time_loop cfg tis 0 ?st0 = Some (Inr n, st)"
    by (auto simp add: NoseParticleGeneration_def preamble_def Let_def split: sum.splits)
  from time_loop_Inr[OF loop] tis show ?thesis by auto
qed

lemma range_py_Inr:
  assumes "stp \<noteq> 0"
  shows "\<exists>tis. range_py a b stp = Inr tis"
  using assms by (cases "0 < stp") (simp_all add: range_py_def)

lemma run_returns:
  assumes "step cfg \<noteq> 0" and "cyclePeriod cfg \<noteq> 0"
    and "well_shaped (leftRotTrans cfg)" and "well_shaped (rightRotTrans cfg)"
    and "\<forall>m. \<exists>k. accepted (radius cfg) (sdrop (m + 2 * k) g)"
  shows "\<exists>n st. NoseParticleGeneration cfg g = Some (Inr n, st)"
proof -
  let ?st0 = "\<lparr>file_handle = preamble cfg, rand = g\<rparr>"
  from assms(1) obtain tis where tis: "range_py 0 (runLength cfg + step cfg) (step cfg) = Inr tis"
    using range_py_Inr by blast
  have "\<forall>m. \<exists>k. accepted (radius cfg) (sdrop (m + 2 * k) (rand ?st0))"
    using assms(5) by simp
  from time_loop_returns[OF assms(2-4) this] obtain n st where
    "time_loop cfg tis 0 ?st0 = Some (Inr n, st)" by blast
  with tis have "NoseParticleGeneration cfg g = Some (Inr n, st)"
    by (simp add: NoseParticleGeneration_def preamble_def Let_def)
  then show ?thesis by blast
qed

lemma exhaling_iff:
  assumes "0 < cyclePeriod cfg"
  shows "exhaling cfg ti \<longleftrightarrow> ti mod cyclePeriod cfg < exhaleLength cfg"
  using assms by (simp add: exhaling_def)

lemma accepted_sconst_half: "r \<noteq> 0 \<Longrightarrow> accepted r (sdrop n (sconst (1 / 2)))"
  by (auto simp add: accepted_def candidate_def uniform_def zero_less_mult_iff)

text \<open>
  C1. With a positive cycle period, in every run that returns, each time step \<open>ti\<close> of the
  loop has its own batch of lines in the file, in the order of the loop, and the batch of
  \<open>ti\<close> holds the \<open>mouthCount + 2 * nostrilCount\<close> particles of a step when
  \<open>ti mod cyclePeriod < exhaleLength\<close> and no particle otherwise. The run returns
  whenever the step is not zero, the matrices are 3x4 and the generator keeps supplying
  candidates inside the disk.
\<close>

theorem emission_window:
  assumes "0 < cyclePeriod cfg"
  shows "(step cfg \<noteq> 0 \<and> well_shaped (leftRotTrans cfg) \<and> well_shaped (rightRotTrans cfg)
          \<and> (\<forall>m. \<exists>k. accepted (radius cfg) (sdrop (m + 2 * k) g))
        \<longrightarrow> (\<exists>n st. NoseParticleGeneration cfg g = Some (Inr n, st)))
     \<and> (\<forall>n st. NoseParticleGeneration cfg g = Some (Inr n, st) \<longrightarrow>
          (\<exists>tis bs. range_py 0 (runLength cfg + step cfg) (step cfg) = Inr tis
             \<and> file_handle st = preamble cfg @ concat bs
             \<and> length bs = length tis
             \<and> (\<forall>i<length tis.
                  (\<exists>pId. is_batch (whichOutput cfg) (tis ! i) pId (bs ! i))
                  \<and> length (bs ! i) =
                      (if tis ! i mod cyclePeriod cfg < exhaleLength cfg
                       then mouthCount cfg + 2 * nostrilCount cfg else 0))))"
proof (intro conjI impI allI)
  assume "step cfg \<noteq> 0 \<and> well_shaped (leftRotTrans cfg) \<and> well_shaped (rightRotTrans cfg)
          \<and> (\<forall>m. \<exists>k. accepted (radius cfg) (sdrop (m + 2 * k) g))"
  with assms show "\<exists>n st. NoseParticleGeneration cfg g = Some (Inr n, st)"
    by (intro run_returns) auto
next
  fix n st
  assume "NoseParticleGeneration cfg g = Some (Inr n, st)"
  from run_Inr[OF this] obtain tis bs where *:
    "range_py 0 (runLength cfg + step cfg) (step cfg) = Inr tis"
    "batches_ok cfg tis 0 bs" "file_handle st = preamble cfg @ concat bs"
    by blast
  have "\<forall>i<length tis.
          (\<exists>pId. is_batch (whichOutput cfg) (tis ! i) pId (bs ! i))
          \<and> length (bs ! i) =
              (if tis ! i mod cyclePeriod cfg < exhaleLength cfg
               then mouthCount cfg + 2 * nostrilCount cfg else 0)"
  proof (intro allI impI)
    fix i assume "i < length tis"
    from batches_ok_nth[OF *(2) this] show
      "(\<exists>pId. is_batch (whichOutput cfg) (tis ! i) pId (bs ! i))
          \<and> length (bs ! i) =
              (if tis ! i mod cyclePeriod cfg < exhaleLength cfg
               then mouthCount cfg + 2 * nostrilCount cfg else 0)"
      using exhaling_iff[OF assms] by (auto simp add: batch_size_def)
  qed
  with * batches_ok_length[OF *(2)]
  show "\<exists>tis bs. range_py 0 (runLength cfg + step cfg) (step cfg) = Inr tis
             \<and> file_handle st = preamble cfg @ concat bs
             \<and> length bs = length tis
             \<and> (\<forall>i<length tis.
                  (\<exists>pId. is_batch (whichOutput cfg) (tis ! i) pId (bs ! i))
                  \<and> length (bs ! i) =
                      (if tis ! i mod cyclePeriod cfg < exhaleLength cfg
                       then mouthCount cfg + 2 * nostrilCount cfg else 0))"
    by blast
qed

section \<open>Identifiers and the order of a batch\<close>

lemma sorted_wrt_ids: "sorted_wrt (<) (map (\<lambda>k. b + int k) [0..<n])"
  by (simp add: sorted_wrt_map sorted_wrt_iff_nth_less)

text \<open>
  C3. In every run that returns, the identifiers written to the file, in the order of the
  file, are \<open>b, b + 1, \<dots>, b + n - 1\<close>, where \<open>n\<close> is the number of particles of the run
  and \<open>b\<close> is 0 in the full format and 1 in the compact format: strictly increasing and
  without a gap. Each call of the writer appends one line, which carries \<open>b + pId\<close>, and
  returns \<open>pId + 1\<close>.
\<close>

theorem identifiers_gap_free:
  "(step cfg \<noteq> 0 \<and> cyclePeriod cfg \<noteq> 0
      \<and> well_shaped (leftRotTrans cfg) \<and> well_shaped (rightRotTrans cfg)
      \<and> (\<forall>m. \<exists>k. accepted (radius cfg) (sdrop (m + 2 * k) g))
    \<longrightarrow> (\<exists>n st. NoseParticleGeneration cfg g = Some (Inr n, st)))
   \<and> (\<forall>n st. NoseParticleGeneration cfg g = Some (Inr n, st) \<longrightarrow>
         0 \<le> n
         \<and> written_ids (file_handle st)
             = map (\<lambda>k. first_id (whichOutput cfg) + int k) [0..<nat n]
         \<and> sorted_wrt (<) (written_ids (file_handle st)))
   \<and> call_whichOutput w ti pId [x, y, z] fh
       = Inr (fh @ [particle_line w ti pId [x, y, z]], pId + 1)
   \<and> written_id (particle_line w ti pId [x, y, z]) = Some (first_id w + pId)
   \<and> first_id UseOutput = 0 \<and> first_id UseOutputStar = 1"
proof (intro conjI impI allI)
  assume "step cfg \<noteq> 0 \<and> cyclePeriod cfg \<noteq> 0
      \<and> well_shaped (leftRotTrans cfg) \<and> well_shaped (rightRotTrans cfg)
      \<and> (\<forall>m. \<exists>k. accepted (radius cfg) (sdrop (m + 2 * k) g))"
  then show "\<exists>n st. NoseParticleGeneration cfg g = Some (Inr n, st)"
    by (intro run_returns) auto
next
  fix n st
  assume run: "NoseParticleGeneration cfg g = Some (Inr n, st)"
  from run_Inr[OF run] obtain tis bs where *:
    "batches_ok cfg tis 0 bs" "file_handle st = preamble cfg @ concat bs"
    "n = int (length (concat bs))"
    by blast
  from *(3) show "0 \<le> n" by simp
  have "written_ids (file_handle st) = written_ids (concat bs)"
    using *(2) by (simp add: written_ids_append written_ids_preamble)
  also have "\<dots> = map (\<lambda>k. first_id (whichOutput cfg) + 0 + int k) [0..<length (concat bs)]"
    by (rule batches_ok_ids[OF *(1)])
  finally show ids: "written_ids (file_handle st)
      = map (\<lambda>k. first_id (whichOutput cfg) + int k) [0..<nat n]"
    using *(3) by simp
  show "sorted_wrt (<) (written_ids (file_handle st))"
    unfolding ids by (rule sorted_wrt_ids)
next
  show "call_whichOutput w ti pId [x, y, z] fh
       = Inr (fh @ [particle_line w ti pId [x, y, z]], pId + 1)"
    by (rule call_whichOutput_three)
next
  show "written_id (particle_line w ti pId [x, y, z]) = Some (first_id w + pId)"
    by (rule written_id_particle_line)
qed simp_all

lemma list_all2_imp_list_all:
  assumes "list_all2 (\<lambda>p c. RotTrans M [fst p, snd p, 0] = Inr c) ps cs"
  shows "list_all (\<lambda>c. \<exists>x y. RotTrans M [x, y, 0] = Inr c) cs"
  using assms by (induction rule: list_all2_induct) auto

text \<open>
  C2. A time step inside the exhale window that returns has appended exactly
  \<open>mouthCount + 2 * nostrilCount\<close> lines (9 with the values of the source), all written
  with the current \<open>ti\<close> and consecutive identifiers: first the \<open>mouthCount\<close> positions of
  the mouth loop, then \<open>nostrilCount\<close> images under the left transform, then
  \<open>nostrilCount\<close> images under the right transform. The step returns whenever the matrices
  are 3x4 and the generator keeps supplying candidates inside the disk.
\<close>

theorem batch_order:
  assumes "0 < cyclePeriod cfg" and "ti mod cyclePeriod cfg < exhaleLength cfg"
  shows "(well_shaped (leftRotTrans cfg) \<and> well_shaped (rightRotTrans cfg)
          \<and> (\<forall>m. \<exists>k. accepted (radius cfg) (sdrop (m + 2 * k) (rand st)))
        \<longrightarrow> (\<exists>pId' st'. time_step cfg ti pId st = Some (Inr pId', st')))
     \<and> (\<forall>pId' st'. time_step cfg ti pId st = Some (Inr pId', st') \<longrightarrow>
          (\<exists>ms ls rs.
              file_handle st' = file_handle st
                @ emit (whichOutput cfg) ti pId ms
                @ emit (whichOutput cfg) ti (pId + int (mouthCount cfg)) ls
                @ emit (whichOutput cfg) ti (pId + int (mouthCount cfg + nostrilCount cfg)) rs
            \<and> ms = mouth_coords cfg (mouthCount cfg) (rand st)
            \<and> length ms = mouthCount cfg
            \<and> length ls = nostrilCount cfg \<and> length rs = nostrilCount cfg
            \<and> list_all (\<lambda>c. \<exists>x y. RotTrans (leftRotTrans cfg) [x, y, 0] = Inr c) ls
            \<and> list_all (\<lambda>c. \<exists>x y. RotTrans (rightRotTrans cfg) [x, y, 0] = Inr c) rs
            \<and> pId' = pId + int (mouthCount cfg + 2 * nostrilCount cfg)
            \<and> length (file_handle st')
                = length (file_handle st) + (mouthCount cfg + 2 * nostrilCount cfg)))"
proof (intro conjI impI allI)
  assume "well_shaped (leftRotTrans cfg) \<and> well_shaped (rightRotTrans cfg)
          \<and> (\<forall>m. \<exists>k. accepted (radius cfg) (sdrop (m + 2 * k) (rand st)))"
  with assms(1) have "\<exists>pId' st' j. time_step cfg ti pId st = Some (Inr pId', st')
      \<and> rand st' = sdrop j (rand st)"
    by (intro time_step_returns) auto
  then show "\<exists>pId' st'. time_step cfg ti pId st = Some (Inr pId', st')" by blast
next
  fix pId' st'
  assume ret: "time_step cfg ti pId st = Some (Inr pId', st')"
  from assms have ex: "exhaling cfg ti" and per: "cyclePeriod cfg \<noteq> 0"
    by (simp_all add: exhaling_def)
  from time_step_Inr[OF ret per ex] obtain ps qs ls rs where *:
    "length ps = nostrilCount cfg" "length qs = nostrilCount cfg"
    "list_all2 (\<lambda>p c. RotTrans (leftRotTrans cfg) [fst p, snd p, 0] = Inr c) ps ls"
    "list_all2 (\<lambda>p c. RotTrans (rightRotTrans cfg) [fst p, snd p, 0] = Inr c) qs rs"
    "file_handle st' = file_handle st
         @ emit (whichOutput cfg) ti pId (mouth_coords cfg (mouthCount cfg) (rand st) @ ls @ rs)"
    "pId' = pId + int (mouthCount cfg + 2 * nostrilCount cfg)"
    by blast
  let ?ms = "mouth_coords cfg (mouthCount cfg) (rand st)"
  from *(1,3) have lenl: "length ls = nostrilCount cfg" by (simp add: list_all2_lengthD[symmetric])
  from *(2,4) have lenr: "length rs = nostrilCount cfg" by (simp add: list_all2_lengthD[symmetric])
  have "file_handle st' = file_handle st
                @ emit (whichOutput cfg) ti pId ?ms
                @ emit (whichOutput cfg) ti (pId + int (mouthCount cfg)) ls
                @ emit (whichOutput cfg) ti (pId + int (mouthCount cfg + nostrilCount cfg)) rs"
    using *(5) lenl by (simp add: emit_append add.assoc)
  moreover have "length (file_handle st')
      = length (file_handle st) + (mouthCount cfg + 2 * nostrilCount cfg)"
    using *(5) lenl lenr by simp
  ultimately show "\<exists>ms ls rs.
              file_handle st' = file_handle st
                @ emit (whichOutput cfg) ti pId ms
                @ emit (whichOutput cfg) ti (pId + int (mouthCount cfg)) ls
                @ emit (whichOutput cfg) ti (pId + int (mouthCount cfg + nostrilCount cfg)) rs
            \<and> ms = mouth_coords cfg (mouthCount cfg) (rand st)
            \<and> length ms = mouthCount cfg
            \<and> length ls = nostrilCount cfg \<and> length rs = nostrilCount cfg
            \<and> list_all (\<lambda>c. \<exists>x y. RotTrans (leftRotTrans cfg) [x, y, 0] = Inr c) ls
            \<and> list_all (\<lambda>c. \<exists>x y. RotTrans (rightRotTrans cfg) [x, y, 0] = Inr c) rs
            \<and> pId' = pId + int (mouthCount cfg + 2 * nostrilCount cfg)
            \<and> length (file_handle st')
                = length (file_handle st) + (mouthCount cfg + 2 * nostrilCount cfg)"
    using lenl lenr *(6) list_all2_imp_list_all[OF *(3)] list_all2_imp_list_all[OF *(4)]
    by (intro exI[of _ ?ms] exI[of _ ls] exI[of _ rs]) simp
qed

section \<open>Where the particles are\<close>

lemma sset_sdrop: "x \<in> sset (sdrop n s) \<Longrightarrow> x \<in> sset s"
  by (induction n arbitrary: s) (auto intro: stl_sset)

lemma list_all2_in_nostril:
  assumes "list_all2 (\<lambda>p c. RotTrans M [fst p, snd p, 0] = Inr c) ps cs"
    and "\<forall>p \<in> set ps. fst p * fst p + snd p * snd p < r * r"
  shows "list_all (in_nostril r M) cs"
  using assms by (induction rule: list_all2_induct) (auto simp add: in_nostril_def)

lemma time_step_regions:
  assumes "ymin cfg \<le> ymax cfg" and "zmin cfg \<le> zmax cfg"
    and unit: "\<forall>u \<in> sset (rand st). 0 \<le> u \<and> u < 1"
    and ret: "time_step cfg ti pId st = Some (Inr pId', st')"
  shows "\<exists>ms ls rs. file_handle st' = file_handle st @ step_lines (whichOutput cfg) (ti, pId, ms, ls, rs)
     \<and> step_in_regions cfg (ti, pId, ms, ls, rs)
     \<and> (\<exists>j. rand st' = sdrop j (rand st))"
proof (cases "exhaling cfg ti")
  case False
  from ret have per: "cyclePeriod cfg \<noteq> 0" by (rule time_step_Inr_period)
  with ret False have "st' = st" by (simp add: time_step_resting)
  moreover have "rand st = sdrop 0 (rand st)" by simp
  then have "\<exists>j. rand st = sdrop j (rand st)" ..
  ultimately show ?thesis
    by (intro exI[of _ "[]"]) (simp add: step_lines_def step_in_regions_def)
next
  case True
  from ret have per: "cyclePeriod cfg \<noteq> 0" by (rule time_step_Inr_period)
  from time_step_Inr[OF ret per True] obtain ps qs ls rs where *:
    "\<forall>p \<in> set ps \<union> set qs. fst p * fst p + snd p * snd p < radius cfg * radius cfg"
    "list_all2 (\<lambda>p c. RotTrans (leftRotTrans cfg) [fst p, snd p, 0] = Inr c) ps ls"
    "list_all2 (\<lambda>p c. RotTrans (rightRotTrans cfg) [fst p, snd p, 0] = Inr c) qs rs"
    "file_handle st' = file_handle st
         @ emit (whichOutput cfg) ti pId (mouth_coords cfg (mouthCount cfg) (rand st) @ ls @ rs)"
    "\<exists>j. rand st' = sdrop j (rand st)"
    by blast
  let ?ms = "mouth_coords cfg (mouthCount cfg) (rand st)"
  have "list_all (in_mouth cfg) ?ms"
    using mouth_coords_in_mouth[OF assms(1,2) unit] by (simp add: list_all_iff)
  moreover have "list_all (in_nostril (radius cfg) (leftRotTrans cfg)) ls"
    using *(2) *(1) by (intro list_all2_in_nostril) auto
  moreover have "list_all (in_nostril (radius cfg) (rightRotTrans cfg)) rs"
    using *(3) *(1) by (intro list_all2_in_nostril) auto
  ultimately have "step_in_regions cfg (ti, pId, ?ms, ls, rs)"
    by (simp add: step_in_regions_def)
  with *(4,5) show ?thesis
    by (intro exI[of _ ?ms] exI[of _ ls] exI[of _ rs]) (simp add: step_lines_def)
qed

lemma time_loop_regions:
  assumes "ymin cfg \<le> ymax cfg" and "zmin cfg \<le> zmax cfg"
    and "\<forall>u \<in> sset (rand st). 0 \<le> u \<and> u < 1"
    and "time_loop cfg tis pId st = Some (Inr pId', st')"
  shows "\<exists>steps. file_handle st' = file_handle st @ concat (map (step_lines (whichOutput cfg)) steps)
     \<and> list_all (step_in_regions cfg) steps \<and> map fst steps = tis"
  using assms(3,4)
proof (induction tis arbitrary: pId st)
  case Nil
  then show ?case by simp
next
  case (Cons ti tis)
  from Cons.prems(2) obtain pId1 st1 where
    step: "time_step cfg ti pId st = Some (Inr pId1, st1)"
    and rest: "time_loop cfg tis pId1 st1 = Some (Inr pId', st')"
    by (auto split: option.splits sum.splits)
  from time_step_regions[OF assms(1,2) Cons.prems(1) step] obtain ms ls rs j where s:
    "file_handle st1 = file_handle st @ step_lines (whichOutput cfg) (ti, pId, ms, ls, rs)"
    "step_in_regions cfg (ti, pId, ms, ls, rs)" "rand st1 = sdrop j (rand st)"
    by blast
  from s(3) Cons.prems(1) have "\<forall>u \<in> sset (rand st1). 0 \<le> u \<and> u < 1"
    by (auto dest: sset_sdrop)
  from Cons.IH[OF this rest] obtain steps where steps:
    "file_handle st' = file_handle st1 @ concat (map (step_lines (whichOutput cfg)) steps)"
    "list_all (step_in_regions cfg) steps" "map fst steps = tis"
    by blast
  from s(1,2) steps show ?case
    by (intro exI[of _ "(ti, pId, ms, ls, rs) # steps"]) simp
qed

text \<open>
  Under the matrices of the source a position of a nostril has one local point only: the
  local coordinates can be read back from the position.
\<close>

lemma default_transform_injective:
  assumes "RotTrans (leftRotTrans default_config) [x, y, 0]
         = RotTrans (leftRotTrans default_config) [x', y', 0]"
  shows "x = x' \<and> y = y'"
  using assms by (simp add: RotTrans_ok well_shaped_def default_config_def)

text \<open>
  C4. For a mouth rectangle with \<open>ymin \<le> ymax\<close> and \<open>zmin \<le> zmax\<close> and a generator whose
  values lie in \<open>[0, 1)\<close>, the particle lines of a run that returns are, step by step, the
  lines of mouth positions with \<open>x = xPln\<close>, \<open>ymin \<le> y \<le> ymax\<close> and
  \<open>zmin \<le> z \<le> zmax\<close>, then of left-nostril and of right-nostril positions, each the
  transform of a local point \<open>(x, y, 0)\<close> with \<open>x * x + y * y < r * r\<close>.
\<close>

theorem particles_in_regions:
  assumes "ymin cfg \<le> ymax cfg" and "zmin cfg \<le> zmax cfg"
    and "\<forall>u \<in> sset g. 0 \<le> u \<and> u < 1"
  shows "(step cfg \<noteq> 0 \<and> cyclePeriod cfg \<noteq> 0
          \<and> well_shaped (leftRotTrans cfg) \<and> well_shaped (rightRotTrans cfg)
          \<and> (\<forall>m. \<exists>k. accepted (radius cfg) (sdrop (m + 2 * k) g))
        \<longrightarrow> (\<exists>n st. NoseParticleGeneration cfg g = Some (Inr n, st)))
     \<and> (\<forall>n st. NoseParticleGeneration cfg g = Some (Inr n, st) \<longrightarrow>
          (\<exists>steps. file_handle st = preamble cfg @ concat (map (step_lines (whichOutput cfg)) steps)
             \<and> range_py 0 (runLength cfg + step cfg) (step cfg) = Inr (map fst steps)
             \<and> list_all (step_in_regions cfg) steps))"
proof (intro conjI impI allI)
  assume "step cfg \<noteq> 0 \<and> cyclePeriod cfg \<noteq> 0
          \<and> well_shaped (leftRotTrans cfg) \<and> well_shaped (rightRotTrans cfg)
          \<and> (\<forall>m. \<exists>k. accepted (radius cfg) (sdrop (m + 2 * k) g))"
  then show "\<exists>n st. NoseParticleGeneration cfg g = Some (Inr n, st)"
    by (intro run_returns) auto
next
  fix n st
  assume run: "NoseParticleGeneration cfg g = Some (Inr n, st)"
  let ?st0 = "\<lparr>file_handle = preamble cfg, rand = g\<rparr>"
  from run obtain tis where tis: "range_py 0 (runLength cfg + step cfg) (step cfg) = Inr tis"
    and loop: "time_loop cfg tis 0 ?st0 = Some (Inr n, st)"
    by (auto simp add: NoseParticleGeneration_def preamble_def Let_def split: sum.splits)
  have "\<forall>u \<in> sset (rand ?st0). 0 \<le> u \<and> u < 1" using assms(3) by simp
  from time_loop_regions[OF assms(1,2) this loop] tis
  show "\<exists>steps. file_handle st = preamble cfg @ concat (map (step_lines (whichOutput cfg)) steps)
             \<and> range_py 0 (runLength cfg + step cfg) (step cfg) = Inr (map fst steps)
             \<and> list_all (step_in_regions cfg) steps"
    by auto
qed

section \<open>Runs of the source's configuration\<close>

text \<open>
  The generator that always returns 0.5 makes every candidate the centre of the disk. One
  time step of the source's configuration, and a run of one time step, evaluated.
\<close>

lemma well_shaped_default:
  "well_shaped (leftRotTrans default_config)" "well_shaped (rightRotTrans default_config)"
  by (simp_all add: well_shaped_def default_config_def)

lemma fair_sconst_half:
  assumes "r \<noteq> 0"
  shows "\<forall>m. \<exists>k. accepted r (sdrop (m + 2 * k) (sconst (1 / 2)))"
  using accepted_sconst_half[OF assms] by blast

lemma rejection_loop_sconst_half:
  assumes "r \<noteq> 0"
  shows "rejection_loop r (sconst (1 / 2)) = Some ((0, 0), sconst (1 / 2))"
  using assms by (subst rejection_loop_unfold)
    (auto simp add: accepted_def candidate_def uniform_def zero_less_mult_iff)

lemma step0:
  "time_step (default_config\<lparr>runLength := L\<rparr>) 0 0 \<lparr>file_handle = header, rand = sconst (1 / 2)\<rparr>
   = Some (Inr 9,
       \<lparr>file_handle = header @
          [FullRecord 0.0015 3.371 1.68305 0 0,
           FullRecord 0.0015 3.371 1.68305 0 1,
           FullRecord 0.0015 3.371 1.68305 0 2,
           FullRecord 0.0015 3.371 1.68305 0 3,
           FullRecord 0.0015 3.371 1.68305 0 4,
           FullRecord 0.00573 (- 0.00875) 1.71177 0 5,
           FullRecord 0.00573 (- 0.00875) 1.71177 0 6,
           FullRecord 0.00573 (- 0.00875) 1.71177 0 7,
           FullRecord 0.00573 (- 0.00875) 1.71177 0 8],
        rand = sconst (1 / 2)\<rparr>)"
proof -
  let ?cfg = "default_config\<lparr>runLength := L\<rparr>"
  have ex: "exhaling ?cfg 0" by (simp add: exhaling_def default_config_def)
  have per: "cyclePeriod ?cfg \<noteq> 0" by (simp add: default_config_def)
  show ?thesis
    unfolding time_step_exhaling[OF per ex]
    by (simp add: default_config_def GenNostril_def eval_nat_numeral rejection_loop_sconst_half
        RotTrans_ok well_shaped_def call_whichOutput_three Output_three particle_line_def
        uniform_def ydel_def zdel_def)
qed

lemma run0:
  "NoseParticleGeneration (default_config\<lparr>runLength := 0\<rparr>) (sconst (1 / 2))
   = Some (Inr 9,
       \<lparr>file_handle = header @
          [FullRecord 0.0015 3.371 1.68305 0 0,
           FullRecord 0.0015 3.371 1.68305 0 1,
           FullRecord 0.0015 3.371 1.68305 0 2,
           FullRecord 0.0015 3.371 1.68305 0 3,
           FullRecord 0.0015 3.371 1.68305 0 4,
           FullRecord 0.00573 (- 0.00875) 1.71177 0 5,
           FullRecord 0.00573 (- 0.00875) 1.71177 0 6,
           FullRecord 0.00573 (- 0.00875) 1.71177 0 7,
           FullRecord 0.00573 (- 0.00875) 1.71177 0 8],
        rand = sconst (1 / 2)\<rparr>)"
proof -
  let ?cfg = "default_config\<lparr>runLength := 0\<rparr>"
  have r: "range_py 0 (runLength ?cfg + step ?cfg) (step ?cfg) = Inr [0]"
    by (simp add: range_py_def default_config_def)
  have w: "whichOutput ?cfg = UseOutput" by (simp add: default_config_def)
  show ?thesis
    unfolding NoseParticleGeneration_def r w by (simp add: step0)
qed

text \<open>The loop of the source's configuration is the loop of the source.\<close>

lemma default_loop:
  "range_py 0 (runLength default_config + step default_config) (step default_config)
   = range_py 0 200005 5"
  by (simp add: default_config_def)

lemma range_default:
  "range_py 0 (runLength default_config + step default_config) (step default_config)
   = Inr (map (\<lambda>k. 0 + 5 * int k) [0..<40001])"
  by (simp add: range_py_def default_config_def)

theorem emission_window_witness:
  "0 < cyclePeriod default_config
   \<and> (\<exists>n st bs. NoseParticleGeneration default_config (sconst (1 / 2)) = Some (Inr n, st)
        \<and> file_handle st = header @ concat bs \<and> length bs = 40001
        \<and> length (bs ! 0) = 9 \<and> length (bs ! 499) = 9 \<and> length (bs ! 500) = 0
        \<and> length (bs ! 999) = 0 \<and> length (bs ! 1000) = 9 \<and> length (bs ! 40000) = 9)"
proof -
  let ?cfg = default_config and ?g = "sconst (1 / 2 :: real)"
  have pos: "0 < cyclePeriod ?cfg" by (simp add: default_config_def)
  have fair: "\<forall>m. \<exists>k. accepted (radius ?cfg) (sdrop (m + 2 * k) ?g)"
    by (rule fair_sconst_half) (simp add: default_config_def)
  have pre: "step ?cfg \<noteq> 0 \<and> well_shaped (leftRotTrans ?cfg) \<and> well_shaped (rightRotTrans ?cfg)
      \<and> (\<forall>m. \<exists>k. accepted (radius ?cfg) (sdrop (m + 2 * k) ?g))"
    using fair well_shaped_default by (simp add: default_config_def)
  from emission_window[OF pos, of ?g] pre obtain n st where
    run: "NoseParticleGeneration ?cfg ?g = Some (Inr n, st)" by blast
  from emission_window[OF pos, of ?g] run obtain tis bs where *:
    "range_py 0 (runLength ?cfg + step ?cfg) (step ?cfg) = Inr tis"
    "file_handle st = preamble ?cfg @ concat bs" "length bs = length tis"
    "\<forall>i<length tis. (\<exists>pId. is_batch (whichOutput ?cfg) (tis ! i) pId (bs ! i))
        \<and> length (bs ! i) = (if tis ! i mod cyclePeriod ?cfg < exhaleLength ?cfg
                              then mouthCount ?cfg + 2 * nostrilCount ?cfg else 0)"
    by blast
  from *(1) have tis: "tis = map (\<lambda>k. 0 + 5 * int k) [0..<40001]"
    unfolding range_default by simp
  have len: "length (bs ! i) = (if (5 * int i) mod 5000 < 2500 then 9 else 0)" if "i < 40001" for i
    using *(4) that unfolding tis by (simp add: default_config_def)
  have "length (bs ! 0) = 9" "length (bs ! 499) = 9" "length (bs ! 500) = 0"
    "length (bs ! 999) = 0" "length (bs ! 1000) = 9" "length (bs ! 40000) = 9"
    by (simp_all add: len)
  moreover have "file_handle st = header @ concat bs"
    using *(2) by (simp add: preamble_def default_config_def)
  moreover have "length bs = 40001" using *(3) tis by simp
  ultimately show ?thesis using pos run by blast
qed

theorem batch_order_witness:
  "0 < cyclePeriod (default_config\<lparr>runLength := 0\<rparr>)
   \<and> 0 mod cyclePeriod (default_config\<lparr>runLength := 0\<rparr>)
       < exhaleLength (default_config\<lparr>runLength := 0\<rparr>)
   \<and> (\<exists>ms ls rs.
         header @
          [FullRecord 0.0015 3.371 1.68305 0 0,
           FullRecord 0.0015 3.371 1.68305 0 1,
           FullRecord 0.0015 3.371 1.68305 0 2,
           FullRecord 0.0015 3.371 1.68305 0 3,
           FullRecord 0.0015 3.371 1.68305 0 4,
           FullRecord 0.00573 (- 0.00875) 1.71177 0 5,
           FullRecord 0.00573 (- 0.00875) 1.71177 0 6,
           FullRecord 0.00573 (- 0.00875) 1.71177 0 7,
           FullRecord 0.00573 (- 0.00875) 1.71177 0 8]
         = header @ emit UseOutput 0 0 ms @ emit UseOutput 0 5 ls @ emit UseOutput 0 7 rs
       \<and> length ms = 5 \<and> length ls = 2 \<and> length rs = 2)"
proof -
  let ?cfg = "default_config\<lparr>runLength := 0\<rparr>"
  let ?st = "\<lparr>file_handle = header, rand = sconst (1 / 2 :: real)\<rparr>"
  have pos: "0 < cyclePeriod ?cfg" by (simp add: default_config_def)
  have win: "0 mod cyclePeriod ?cfg < exhaleLength ?cfg" by (simp add: default_config_def)
  from batch_order[OF pos win, of ?st 0] step0[of 0] obtain ms ls rs where *:
    "file_handle \<lparr>file_handle = header @
          [FullRecord 0.0015 3.371 1.68305 0 0,
           FullRecord 0.0015 3.371 1.68305 0 1,
           FullRecord 0.0015 3.371 1.68305 0 2,
           FullRecord 0.0015 3.371 1.68305 0 3,
           FullRecord 0.0015 3.371 1.68305 0 4,
           FullRecord 0.00573 (- 0.00875) 1.71177 0 5,
           FullRecord 0.00573 (- 0.00875) 1.71177 0 6,
           FullRecord 0.00573 (- 0.00875) 1.71177 0 7,
           FullRecord 0.00573 (- 0.00875) 1.71177 0 8],
        rand = sconst (1 / 2)\<rparr>
      = file_handle ?st @ emit (whichOutput ?cfg) 0 0 ms
          @ emit (whichOutput ?cfg) 0 (0 + int (mouthCount ?cfg)) ls
          @ emit (whichOutput ?cfg) 0 (0 + int (mouthCount ?cfg + nostrilCount ?cfg)) rs"
    "length ms = mouthCount ?cfg" "length ls = nostrilCount ?cfg" "length rs = nostrilCount ?cfg"
    by blast
  then show ?thesis
    using pos win by (intro conjI exI[of _ ms] exI[of _ ls] exI[of _ rs])
      (simp_all add: default_config_def)
qed

theorem identifiers_gap_free_witness:
  "(\<exists>st. NoseParticleGeneration (default_config\<lparr>runLength := 0\<rparr>) (sconst (1 / 2))
           = Some (Inr 9, st)
        \<and> written_ids (file_handle st) = [0, 1, 2, 3, 4, 5, 6, 7, 8])
   \<and> call_whichOutput UseOutputStar 0 0 [1, 2, 3] []
       = Inr ([particle_line UseOutputStar 0 0 [1, 2, 3]], 1)
   \<and> written_id (particle_line UseOutputStar 0 0 [1, 2, 3]) = Some 1"
proof -
  let ?cfg = "default_config\<lparr>runLength := 0\<rparr>"
  have "[0..<9] = [0, 1, 2, 3, 4, 5, 6, 7, 8]" by (simp add: upt_rec)
  with identifiers_gap_free[of ?cfg "sconst (1 / 2)" UseOutputStar 0 0 1 2 3 "[]"] run0
  show ?thesis by (simp add: default_config_def)
qed

theorem particles_in_regions_witness:
  "ymin (default_config\<lparr>runLength := 0\<rparr>) \<le> ymax (default_config\<lparr>runLength := 0\<rparr>)
   \<and> zmin (default_config\<lparr>runLength := 0\<rparr>) \<le> zmax (default_config\<lparr>runLength := 0\<rparr>)
   \<and> (\<exists>steps.
         header @
          [FullRecord 0.0015 3.371 1.68305 0 0,
           FullRecord 0.0015 3.371 1.68305 0 1,
           FullRecord 0.0015 3.371 1.68305 0 2,
           FullRecord 0.0015 3.371 1.68305 0 3,
           FullRecord 0.0015 3.371 1.68305 0 4,
           FullRecord 0.00573 (- 0.00875) 1.71177 0 5,
           FullRecord 0.00573 (- 0.00875) 1.71177 0 6,
           FullRecord 0.00573 (- 0.00875) 1.71177 0 7,
           FullRecord 0.00573 (- 0.00875) 1.71177 0 8]
         = header @ concat (map (step_lines UseOutput) steps)
       \<and> map fst steps = [0]
       \<and> list_all (step_in_regions (default_config\<lparr>runLength := 0\<rparr>)) steps)"
proof -
  let ?cfg = "default_config\<lparr>runLength := 0\<rparr>"
  have y: "ymin ?cfg \<le> ymax ?cfg" and z: "zmin ?cfg \<le> zmax ?cfg"
    by (simp_all add: default_config_def)
  have unit: "\<forall>u \<in> sset (sconst (1 / 2 :: real)). 0 \<le> u \<and> u < 1" by simp
  have r: "range_py 0 (runLength ?cfg + step ?cfg) (step ?cfg) = Inr [0]"
    by (simp add: range_py_def default_config_def)
  from particles_in_regions[OF y z unit] run0 obtain steps where
    "file_handle \<lparr>file_handle = header @
          [FullRecord 0.0015 3.371 1.68305 0 0,
           FullRecord 0.0015 3.371 1.68305 0 1,
           FullRecord 0.0015 3.371 1.68305 0 2,
           FullRecord 0.0015 3.371 1.68305 0 3,
           FullRecord 0.0015 3.371 1.68305 0 4,
           FullRecord 0.00573 (- 0.00875) 1.71177 0 5,
           FullRecord 0.00573 (- 0.00875) 1.71177 0 6,
           FullRecord 0.00573 (- 0.00875) 1.71177 0 7,
           FullRecord 0.00573 (- 0.00875) 1.71177 0 8],
        rand = sconst (1 / 2)\<rparr>
      = preamble ?cfg @ concat (map (step_lines (whichOutput ?cfg)) steps)"
    "range_py 0 (runLength ?cfg + step ?cfg) (step ?cfg) = Inr (map fst steps)"
    "list_all (step_in_regions ?cfg) steps"
    by blast
  then show ?thesis
    using y z unfolding r by (intro conjI exI[of _ steps]) (simp_all add: preamble_def default_config_def)
qed

lemma list_all2_const:
  assumes "list_all2 (\<lambda>j c. Inr v = Inr c) js cs"
  shows "cs = replicate (length js) v"
  using assms by (induction rule: list_all2_induct) auto

lemma accepted_fp_sconst_half: "r \<noteq> 0 \<Longrightarrow> accepted_fp exact r (sdrop n (sconst (1 / 2)))"
  using accepted_sconst_half[of r n] by (simp add: accepted_fp_exact)

theorem nostril_sampler_terminates_witness:
  "well_shaped (leftRotTrans default_config)
   \<and> length [0, 1 :: nat] = nostrilCount default_config
   \<and> sorted_wrt (<) [0, 1 :: nat]
   \<and> accepted_fp exact (radius default_config) (sconst (1 / 2))
   \<and> \<not> accepted_fp exact (radius default_config) (sconst 0)
   \<and> GenNostril_fp exact default_config 0 (radius default_config) 0
        (leftRotTrans default_config) \<lparr>file_handle = [], rand = sconst (1 / 2)\<rparr>
      = Some (Inr 2,
          \<lparr>file_handle = [FullRecord 0.00573 (- 0.00875) 1.71177 0 0,
                          FullRecord 0.00573 (- 0.00875) 1.71177 0 1],
           rand = sconst (1 / 2)\<rparr>)
   \<and> rejection_loop_fp exact (radius default_config)
        (concat (replicate 3 [0, 0]) @- 1 / 2 ## 1 / 2 ## sconst (1 / 2))
      = Some ((0, 0), sconst (1 / 2))
   \<and> rejection_loop_fp exact (radius default_config) (sconst 0) = None"
proof -
  let ?cfg = default_config
  let ?r = "radius default_config"
  let ?g = "sconst (1 / 2 :: real)"
  let ?st = "\<lparr>file_handle = [], rand = ?g\<rparr>"
  have len: "length [0, 1 :: nat] = nostrilCount ?cfg" by (simp add: default_config_def)
  have srt: "sorted_wrt (<) [0, 1 :: nat]" by simp
  have r0: "?r \<noteq> 0" by (simp add: default_config_def)
  have acc: "\<forall>k \<in> set [0, 1 :: nat]. accepted_fp exact ?r (sdrop (2 * k) (rand ?st))"
    using accepted_fp_sconst_half[OF r0] by simp
  have ti: "\<bar>0 :: int\<bar> < 2 ^ 1000" by simp
  note inst = nostril_sampler_terminates[OF well_shaped_default(1) len srt acc ti ti]
  have acc_half: "accepted_fp exact ?r ?g"
    using accepted_fp_sconst_half[OF r0, of 0] by simp
  have acc_half': "accepted_fp exact ?r (1 / 2 ## 1 / 2 ## ?g)"
    using acc_half by (simp add: accepted_fp_def candidate_fp_def uniform_fp_def)
  have rej0: "\<not> accepted_fp exact ?r (0 ## 0 ## g)" for g
    by (simp add: accepted_fp_def candidate_fp_def uniform_fp_def exact_def not_less)
  have rej: "\<not> accepted_fp exact ?r (sdrop n (sconst 0))" for n
    by (simp add: accepted_fp_def candidate_fp_def uniform_fp_def exact_def not_less)
  have cand: "candidate_fp exact ?r ?g = (0, 0)"
    by (simp add: candidate_fp_def uniform_fp_def exact_def)
  have cand': "candidate_fp exact ?r (1 / 2 ## 1 / 2 ## ?g) = (0, 0)"
    by (simp add: candidate_fp_def uniform_fp_def exact_def)
  have img: "RotTrans_fp exact (leftRotTrans ?cfg) [0, 0, 0] = Inr [0.00573, - 0.00875, 1.71177]"
    by (simp add: RotTrans_fp_exact RotTrans_ok well_shaped_default) (simp add: default_config_def)
  from inst obtain js cs where js: "length js = nostrilCount ?cfg"
    and imgs: "list_all2
                 (\<lambda>j c. RotTrans_fp exact (leftRotTrans ?cfg)
                           [fst (candidate_fp exact ?r (sdrop (2 * j) (rand ?st))),
                            snd (candidate_fp exact ?r (sdrop (2 * j) (rand ?st))), 0] = Inr c)
                 js cs"
    and res: "GenNostril_fp exact ?cfg 0 ?r 0 (leftRotTrans ?cfg) ?st
                = Some (Inr (0 + int (nostrilCount ?cfg)),
                    \<lparr>file_handle = file_handle ?st @ emit (whichOutput ?cfg) 0 0 cs,
                     rand = sdrop (2 * pairs_read js) (rand ?st)\<rparr>)"
    by blast
  from imgs have "list_all2 (\<lambda>j c. Inr [0.00573, - 0.00875, 1.71177 :: real] = Inr c) js cs"
    by (simp add: cand img)
  then have "cs = replicate (length js) [0.00573, - 0.00875, 1.71177]"
    by (rule list_all2_const)
  with js have cs: "cs = [[0.00573, - 0.00875, 1.71177], [0.00573, - 0.00875, 1.71177]]"
    by (simp add: default_config_def replicate_two)
  have run: "GenNostril_fp exact ?cfg 0 ?r 0 (leftRotTrans ?cfg) ?st
      = Some (Inr 2,
          \<lparr>file_handle = [FullRecord 0.00573 (- 0.00875) 1.71177 0 0,
                          FullRecord 0.00573 (- 0.00875) 1.71177 0 1],
           rand = ?g\<rparr>)"
    unfolding res cs by (simp add: default_config_def particle_line_def)
  from inst rej0 acc_half' have "rejection_loop_fp exact ?r
        (concat (replicate 3 [0, 0]) @- 1 / 2 ## 1 / 2 ## ?g)
      = Some (candidate_fp exact ?r (1 / 2 ## 1 / 2 ## ?g), ?g)"
    by blast
  then have forced: "rejection_loop_fp exact ?r
        (concat (replicate 3 [0, 0]) @- 1 / 2 ## 1 / 2 ## ?g) = Some ((0, 0), ?g)"
    by (simp only: cand')
  from inst rej have never: "rejection_loop_fp exact ?r (sconst 0) = None"
    by blast
  from rej[of 0] have rej': "\<not> accepted_fp exact ?r (sconst 0)" by simp
  show ?thesis
    using well_shaped_default(1) len srt acc_half rej' run forced never by blast
qed

section \<open>The scenario of 10000 ms\<close>

lemma sum_list_const_upt:
  assumes "\<forall>k. a \<le> k \<and> k < b \<longrightarrow> f k = (c::nat)"
  shows "sum_list (map f [a..<b]) = (b - a) * c"
  using assms
proof (induction b)
  case 0
  then show ?case by simp
next
  case (Suc b)
  show ?case
  proof (cases "a \<le> b")
    case True
    with Suc have "sum_list (map f [a..<b]) = (b - a) * c" "f b = c" by simp_all
    with True show ?thesis by (simp add: Suc_diff_le)
  next
    case False
    then show ?thesis by simp
  qed
qed

lemma scenario_range:
  "range_py 0 (runLength scenario_config + step scenario_config) (step scenario_config)
   = Inr (map (\<lambda>k. 5 * int k) [0..<2001])"
  by (simp add: range_py_def scenario_config_def default_config_def)

lemma mod_5000_low: "0 \<le> x \<Longrightarrow> x < 5000 \<Longrightarrow> x mod 5000 = (x::int)"
  by simp

lemma mod_5000_high:
  assumes "5000 \<le> x" and "x < 10000"
  shows "x mod 5000 = x - (5000::int)"
proof -
  have "x mod 5000 = (x - 5000) mod 5000" by simp
  also have "\<dots> = x - 5000" using assms by (intro mod_pos_pos_trivial) simp_all
  finally show ?thesis .
qed

lemma scenario_exhaling:
  assumes "0 \<le> ti" and "ti \<le> 10000"
  shows "exhaling scenario_config ti
     \<longleftrightarrow> ti < 2500 \<or> (5000 \<le> ti \<and> ti < 7500) \<or> ti = 10000"
proof -
  consider "ti < 5000" | "5000 \<le> ti" "ti < 10000" | "ti = 10000" using assms by linarith
  then show ?thesis
  proof cases
    case 1
    with assms(1) have "ti mod 5000 = ti" by simp
    with 1 assms(1) show ?thesis
      by (simp add: exhaling_def scenario_config_def default_config_def)
  next
    case 2
    then have "ti mod 5000 = ti - 5000" by (rule mod_5000_high)
    with 2 show ?thesis
      by (simp add: exhaling_def scenario_config_def default_config_def)
  next
    case 3
    then show ?thesis
      by (simp add: exhaling_def scenario_config_def default_config_def)
  qed
qed

lemma scenario_batch_size:
  assumes "k < 2001"
  shows "batch_size scenario_config (5 * int k)
     = (if 5 * int k < 2500 \<or> (5000 \<le> 5 * int k \<and> 5 * int k < 7500) \<or> 5 * int k = 10000
        then 9 else 0)"
proof -
  from assms have "0 \<le> 5 * int k" "5 * int k \<le> 10000" by simp_all
  from scenario_exhaling[OF this] show ?thesis
    by (simp add: batch_size_def scenario_config_def default_config_def)
qed

lemma upt_split:
  assumes "a \<le> b" and "b \<le> c"
  shows "[a..<c] = [a..<b] @ [b..<c]"
  using assms by (metis le_Suc_ex upt_add_eq_append)

lemma scenario_total:
  "sum_list (map (batch_size scenario_config) (map (\<lambda>k. 5 * int k) [0..<2001])) = 9009"
proof -
  let ?f = "\<lambda>k. batch_size scenario_config (5 * int k)"
  have s1: "[0..<2001] = [0..<500] @ [500..<2001]" by (rule upt_split) simp_all
  have s2: "[500..<2001] = [500..<1000] @ [1000..<2001]" by (rule upt_split) simp_all
  have s3: "[1000..<2001] = [1000..<1500] @ [1500..<2001]" by (rule upt_split) simp_all
  have s4: "[1500..<2001] = [1500..<2000] @ [2000..<2001]" by (rule upt_split) simp_all
  have s5: "[2000..<2001] = [2000]" by (simp add: upt_rec)
  have a: "sum_list (map ?f [0..<500]) = (500 - 0) * 9"
    by (rule sum_list_const_upt) (simp add: scenario_batch_size)
  have b: "sum_list (map ?f [500..<1000]) = (1000 - 500) * 0"
    by (rule sum_list_const_upt) (simp add: scenario_batch_size)
  have c: "sum_list (map ?f [1000..<1500]) = (1500 - 1000) * 9"
    by (rule sum_list_const_upt) (simp add: scenario_batch_size)
  have d: "sum_list (map ?f [1500..<2000]) = (2000 - 1500) * 0"
    by (rule sum_list_const_upt) (simp add: scenario_batch_size)
  have e: "?f 2000 = 9" using scenario_batch_size[of 2000] by simp
  have "sum_list (map ?f [0..<2001])
      = sum_list (map ?f [0..<500]) + (sum_list (map ?f [500..<1000])
        + (sum_list (map ?f [1000..<1500]) + (sum_list (map ?f [1500..<2000]) + ?f 2000)))"
    by (simp only: s1 s2 s3 s4 s5 map_append sum_list_append list.map sum_list.Cons
        sum_list.Nil add_0_right)
  also have "\<dots> = 9009" by (simp only: a b c d e)
  finally show ?thesis by (simp only: map_map comp_def)
qed


lemma scenario_shapes:
  "step scenario_config \<noteq> 0" "cyclePeriod scenario_config \<noteq> 0"
  "well_shaped (leftRotTrans scenario_config)" "well_shaped (rightRotTrans scenario_config)"
  "radius scenario_config \<noteq> 0"
  by (simp_all add: scenario_config_def default_config_def well_shaped_def)

lemma scenario_run:
  assumes "NoseParticleGeneration scenario_config g = Some (Inr n, st)"
  shows "n = 9009
     \<and> (\<exists>bs. file_handle st = header @ concat bs \<and> length bs = 2001
          \<and> (\<forall>k<2001. (\<exists>pId. is_batch UseOutput (5 * int k) pId (bs ! k))
                \<and> length (bs ! k)
                   = (if 5 * int k < 2500 \<or> (5000 \<le> 5 * int k \<and> 5 * int k < 7500)
                         \<or> 5 * int k = 10000 then 9 else 0)))"
proof -
  let ?tis = "map (\<lambda>k. 5 * int k) [0..<2001]"
  from run_Inr[OF assms] obtain bs where *:
    "batches_ok scenario_config ?tis 0 bs"
    "file_handle st = preamble scenario_config @ concat bs" "n = int (length (concat bs))"
    unfolding scenario_range by auto
  from batches_ok_total[OF *(1)] *(3) have "n = 9009"
    by (simp only: scenario_total)
  moreover have "file_handle st = header @ concat bs"
    using *(2) by (simp add: preamble_def scenario_config_def default_config_def)
  moreover have "length bs = 2001" using batches_ok_length[OF *(1)] by simp
  moreover have "\<forall>k<2001. (\<exists>pId. is_batch UseOutput (5 * int k) pId (bs ! k))
                \<and> length (bs ! k)
                   = (if 5 * int k < 2500 \<or> (5000 \<le> 5 * int k \<and> 5 * int k < 7500)
                         \<or> 5 * int k = 10000 then 9 else 0)"
  proof (intro allI impI)
    fix k :: nat assume k: "k < 2001"
    then have "k < length ?tis" by simp
    from batches_ok_nth[OF *(1) this] k
    have "is_batch (whichOutput scenario_config) (5 * int k)
            (0 + int (length (concat (take k bs)))) (bs ! k)"
      and "length (bs ! k) = batch_size scenario_config (5 * int k)"
      by simp_all
    then show "(\<exists>pId. is_batch UseOutput (5 * int k) pId (bs ! k))
                \<and> length (bs ! k)
                   = (if 5 * int k < 2500 \<or> (5000 \<le> 5 * int k \<and> 5 * int k < 7500)
                         \<or> 5 * int k = 10000 then 9 else 0)"
      unfolding scenario_batch_size[OF k]
      by (auto simp add: scenario_config_def default_config_def)
  qed
  ultimately show ?thesis by blast
qed

text \<open>
  The run of 10000 ms on the generator that always returns 0.5 returns 9009, not 9000: the
  loop is \<^verbatim>\<open>range(0, 10005, 5)\<close>, and its last time step, 10000, is inside the exhale
  window and has a batch of 9.
\<close>

theorem scenario_total_counterexample:
  "fst (the (NoseParticleGeneration scenario_config (sconst (1 / 2)))) = Inr 9009
   \<and> batch_size scenario_config 10000 = 9"
proof -
  have "\<forall>m. \<exists>k. accepted (radius scenario_config) (sdrop (m + 2 * k) (sconst (1 / 2)))"
    using scenario_shapes(5) by (rule fair_sconst_half)
  from run_returns[OF scenario_shapes(1-4) this] obtain n st where
    run: "NoseParticleGeneration scenario_config (sconst (1 / 2)) = Some (Inr n, st)"
    by blast
  from scenario_run[OF run] have "n = 9009" by blast
  with run have "fst (the (NoseParticleGeneration scenario_config (sconst (1 / 2)))) = Inr 9009"
    by simp
  moreover have "batch_size scenario_config 10000 = 9"
    using scenario_batch_size[of 2000] by simp
  ultimately show ?thesis ..
qed

text \<open>
  C5 (amended). For the step of 5 ms, the cycle of 5000 ms, the exhale window of 2500 ms, 5
  mouth particles and 2 for each nostril, and a run of 10000 ms, the loop visits
  \<open>ti = 0, 5, \<dots>, 10000\<close>. A run that returns has written a batch of 9 particles at every
  \<open>ti\<close> of \<open>{0, \<dots>, 2495}\<close> and \<open>{5000, \<dots>, 7495}\<close> and at \<open>ti = 10000\<close>, no particle
  at the other time steps, and 9009 particles in all. The run returns whenever the generator
  keeps supplying candidates inside the disk.
\<close>

theorem scenario_emissions:
  "range_py 0 (runLength scenario_config + step scenario_config) (step scenario_config)
     = Inr (map (\<lambda>k. 5 * int k) [0..<2001])
   \<and> ((\<forall>m. \<exists>k. accepted (radius scenario_config) (sdrop (m + 2 * k) g))
        \<longrightarrow> (\<exists>n st. NoseParticleGeneration scenario_config g = Some (Inr n, st)))
   \<and> (\<forall>n st. NoseParticleGeneration scenario_config g = Some (Inr n, st) \<longrightarrow>
         n = 9009
         \<and> (\<exists>bs. file_handle st = header @ concat bs \<and> length bs = 2001
              \<and> (\<forall>k<2001. (\<exists>pId. is_batch UseOutput (5 * int k) pId (bs ! k))
                    \<and> length (bs ! k)
                       = (if 5 * int k < 2500 \<or> (5000 \<le> 5 * int k \<and> 5 * int k < 7500)
                             \<or> 5 * int k = 10000 then 9 else 0))))"
proof (intro conjI impI allI)
  show "range_py 0 (runLength scenario_config + step scenario_config) (step scenario_config)
     = Inr (map (\<lambda>k. 5 * int k) [0..<2001])"
    by (rule scenario_range)
next
  assume "\<forall>m. \<exists>k. accepted (radius scenario_config) (sdrop (m + 2 * k) g)"
  with scenario_shapes(1-4) show "\<exists>n st. NoseParticleGeneration scenario_config g = Some (Inr n, st)"
    by (rule run_returns)
next
  fix n st assume run: "NoseParticleGeneration scenario_config g = Some (Inr n, st)"
  from scenario_run[OF run] show "n = 9009" by blast
  from scenario_run[OF run]
  show "\<exists>bs. file_handle st = header @ concat bs \<and> length bs = 2001
              \<and> (\<forall>k<2001. (\<exists>pId. is_batch UseOutput (5 * int k) pId (bs ! k))
                    \<and> length (bs ! k)
                       = (if 5 * int k < 2500 \<or> (5000 \<le> 5 * int k \<and> 5 * int k < 7500)
                             \<or> 5 * int k = 10000 then 9 else 0))"
    by blast
qed

theorem scenario_emissions_witness:
  "\<exists>st bs. NoseParticleGeneration scenario_config (sconst (1 / 2)) = Some (Inr 9009, st)
     \<and> file_handle st = header @ concat bs \<and> length bs = 2001
     \<and> length (bs ! 0) = 9 \<and> length (bs ! 499) = 9 \<and> length (bs ! 500) = 0
     \<and> length (bs ! 1000) = 9 \<and> length (bs ! 1499) = 9 \<and> length (bs ! 1500) = 0
     \<and> length (bs ! 1999) = 0 \<and> length (bs ! 2000) = 9"
proof -
  let ?g = "sconst (1 / 2 :: real)"
  have fair: "\<forall>m. \<exists>k. accepted (radius scenario_config) (sdrop (m + 2 * k) ?g)"
    using scenario_shapes(5) by (rule fair_sconst_half)
  from scenario_emissions[of ?g] fair obtain n st where
    run: "NoseParticleGeneration scenario_config ?g = Some (Inr n, st)" by blast
  from scenario_emissions[of ?g] run obtain bs where *: "n = 9009"
    "file_handle st = header @ concat bs" "length bs = 2001"
    "\<forall>k<2001. (\<exists>pId. is_batch UseOutput (5 * int k) pId (bs ! k))
        \<and> length (bs ! k)
           = (if 5 * int k < 2500 \<or> (5000 \<le> 5 * int k \<and> 5 * int k < 7500)
                 \<or> 5 * int k = 10000 then 9 else 0)"
    by blast
  have len: "length (bs ! k)
           = (if 5 * int k < 2500 \<or> (5000 \<le> 5 * int k \<and> 5 * int k < 7500)
                 \<or> 5 * int k = 10000 then 9 else 0)" if "k < 2001" for k
    using *(4) that by blast
  have "length (bs ! 0) = 9" "length (bs ! 499) = 9" "length (bs ! 500) = 0"
    "length (bs ! 1000) = 9" "length (bs ! 1499) = 9" "length (bs ! 1500) = 0"
    "length (bs ! 1999) = 0" "length (bs ! 2000) = 9"
    by (simp_all add: len)
  with run * show ?thesis by blast
qed

text \<open>
  The figures of the scenario as it is written, 9000 particles and none at 10000, are those
  of the loop \<^verbatim>\<open>range(0, 10000, 5)\<close>, whose last time step is 9995.
\<close>

lemma scenario_exclusive_range:
  "range_py 0 (runLength (scenario_config\<lparr>runLength := 9995\<rparr>)
                + step (scenario_config\<lparr>runLength := 9995\<rparr>))
      (step (scenario_config\<lparr>runLength := 9995\<rparr>))
   = Inr (map (\<lambda>k. 5 * int k) [0..<2000])"
  by (simp add: range_py_def scenario_config_def default_config_def)

lemma scenario_exclusive_total:
  "sum_list (map (batch_size scenario_config) (map (\<lambda>k. 5 * int k) [0..<2000])) = 9000"
proof -
  let ?f = "\<lambda>k. batch_size scenario_config (5 * int k)"
  have s1: "[0..<2000] = [0..<500] @ [500..<2000]" by (rule upt_split) simp_all
  have s2: "[500..<2000] = [500..<1000] @ [1000..<2000]" by (rule upt_split) simp_all
  have s3: "[1000..<2000] = [1000..<1500] @ [1500..<2000]" by (rule upt_split) simp_all
  have a: "sum_list (map ?f [0..<500]) = (500 - 0) * 9"
    by (rule sum_list_const_upt) (simp add: scenario_batch_size)
  have b: "sum_list (map ?f [500..<1000]) = (1000 - 500) * 0"
    by (rule sum_list_const_upt) (simp add: scenario_batch_size)
  have c: "sum_list (map ?f [1000..<1500]) = (1500 - 1000) * 9"
    by (rule sum_list_const_upt) (simp add: scenario_batch_size)
  have d: "sum_list (map ?f [1500..<2000]) = (2000 - 1500) * 0"
    by (rule sum_list_const_upt) (simp add: scenario_batch_size)
  have "sum_list (map ?f [0..<2000])
      = sum_list (map ?f [0..<500]) + (sum_list (map ?f [500..<1000])
        + (sum_list (map ?f [1000..<1500]) + sum_list (map ?f [1500..<2000])))"
    by (simp only: s1 s2 s3 map_append sum_list_append)
  also have "\<dots> = 9000" by (simp only: a b c d)
  finally show ?thesis by (simp only: map_map comp_def)
qed

lemma scenario_exclusive_run:
  assumes "NoseParticleGeneration (scenario_config\<lparr>runLength := 9995\<rparr>) g = Some (Inr n, st)"
  shows "n = 9000"
proof -
  let ?cfg = "scenario_config\<lparr>runLength := 9995\<rparr>"
  have same: "batch_size ?cfg = batch_size scenario_config"
    by (rule ext) (simp add: batch_size_def exhaling_def)
  from run_Inr[OF assms] obtain bs where *:
    "batches_ok ?cfg (map (\<lambda>k. 5 * int k) [0..<2000]) 0 bs" "n = int (length (concat bs))"
    unfolding scenario_exclusive_range by auto
  from batches_ok_total[OF *(1)] *(2) show ?thesis
    by (simp only: same scenario_exclusive_total)
qed

section \<open>Malformed configurations\<close>

lemma outcome_simps [simp]:
  "outcome None = None"
  "outcome (Some (a, st)) = Some (a, rand st, map without_position (file_handle st))"
  by (simp_all add: outcome_def)

lemma outcome_eq_None [simp]: "outcome res = None \<longleftrightarrow> res = None"
  by (simp add: outcome_def)

lemma without_position_particle_line:
  "without_position (particle_line w ti pId c) = without_position (particle_line w ti pId c')"
  by (cases w) (simp_all add: particle_line_def)

lemma without_position_emit:
  assumes "length cs = length cs'"
  shows "map without_position (emit w ti pId cs) = map without_position (emit w ti pId cs')"
  using assms
proof (induction cs cs' arbitrary: pId rule: list_induct2)
  case Nil
  then show ?case by simp
next
  case (Cons c cs c' cs')
  then show ?case using without_position_particle_line[of w ti pId c c'] by simp
qed

lemma candidate_minus:
  "candidate (- r) g = (- fst (candidate r g), - snd (candidate r g))"
  by (simp add: candidate_def)

lemma accepted_minus: "accepted (- r) g = accepted r g"
  by (simp add: accepted_def candidate_def)

lemma rejection_loop_minus:
  "rejection_loop (- r) g = map_option (\<lambda>(p, g'). ((- fst p, - snd p), g')) (rejection_loop r g)"
proof (cases "rejection_loop r g")
  case None
  have "rejection_loop (- r) g = None"
  proof (cases "rejection_loop (- r) g")
    case (Some res)
    from rejection_loop_Some[OF Some] obtain k where "accepted (- r) (sdrop (2 * k) g)" by blast
    then have "accepted r (sdrop (2 * k) g)" by (simp add: accepted_minus)
    from rejection_loop_returns[OF this] None show ?thesis by auto
  qed simp
  with None show ?thesis by simp
next
  case (Some res)
  from rejection_loop_Some[OF Some] obtain k where k: "accepted r (sdrop (2 * k) g)"
    "\<forall>j<k. \<not> accepted r (sdrop (2 * j) g)"
    "res = (candidate r (sdrop (2 * k) g), sdrop (2 * k + 2) g)"
    by blast
  from k(1,2) have "rejection_loop (- r) g
      = Some (candidate (- r) (sdrop (2 * k) g), sdrop (2 * k + 2) g)"
    by (intro rejection_loop_first) (simp_all add: accepted_minus)
  with Some k(3) show ?thesis by (simp add: candidate_minus)
qed

lemma RotTrans_row_cases:
  "RotTrans_row M [a, b, c] i =
     (if i < length M \<and> 4 \<le> length (M ! i)
      then Inr (M ! i ! 0 * a + M ! i ! 1 * b + M ! i ! 2 * c + M ! i ! 3)
      else Inl IndexError)"
  by (simp add: RotTrans_row_def index_def bind_err_def del: length_greater_0_conv)

lemma RotTrans_cases:
  "RotTrans M [a, b, c] =
     (if 3 \<le> length M \<and> 4 \<le> length (M ! 0) \<and> 4 \<le> length (M ! 1) \<and> 4 \<le> length (M ! 2)
      then Inr [M ! 0 ! 0 * a + M ! 0 ! 1 * b + M ! 0 ! 2 * c + M ! 0 ! 3,
                M ! 1 ! 0 * a + M ! 1 ! 1 * b + M ! 1 ! 2 * c + M ! 1 ! 3,
                M ! 2 ! 0 * a + M ! 2 ! 1 * b + M ! 2 ! 2 * c + M ! 2 ! 3]
      else Inl IndexError)"
  by (simp add: RotTrans_def RotTrans_row_cases)

lemma RotTrans_shape:
  "(RotTrans M [a, b, c] = Inl e \<longrightarrow> RotTrans M [a', b', c'] = Inl e)
   \<and> ((\<exists>q. RotTrans M [a, b, c] = Inr q) \<longrightarrow> (\<exists>q'. RotTrans M [a', b', c'] = Inr q'))"
  by (simp add: RotTrans_cases)

lemma GenNostril_for_sign:
  assumes "r' = r \<or> r' = - r" and "rand st' = rand st"
    and "map without_position (file_handle st') = map without_position (file_handle st)"
  shows "outcome (GenNostril_for n w ti r' pId M st') = outcome (GenNostril_for n w ti r pId M st)"
  using assms(2,3)
proof (induction n arbitrary: pId st st')
  case 0
  then show ?case by simp
next
  case (Suc n)
  show ?case
  proof (cases "rejection_loop r (rand st)")
    case None
    moreover from None assms(1) have "rejection_loop r' (rand st) = None"
      by (auto simp add: rejection_loop_minus)
    ultimately show ?thesis using Suc.prems(1) by simp
  next
    case (Some res)
    obtain x y g where res: "res = ((x, y), g)" by (cases res) auto
    from Some res assms(1) obtain x' y' where
      rl': "rejection_loop r' (rand st') = Some ((x', y'), g)"
      unfolding Suc.prems(1) by (auto simp add: rejection_loop_minus)
    show ?thesis
    proof (cases "RotTrans M [x, y, 0]")
      case (Inl e)
      with RotTrans_shape[of M x y 0 e x' y' 0] have "RotTrans M [x', y', 0] = Inl e" by simp
      with Inl Some res rl' Suc.prems show ?thesis by simp
    next
      case (Inr c)
      with RotTrans_shape[of M x y 0 _ x' y' 0] obtain c' where c': "RotTrans M [x', y', 0] = Inr c'"
        by blast
      from Inr have len: "length c = 3" by (rule RotTrans_Inr_length)
      from c' have len': "length c' = 3" by (rule RotTrans_Inr_length)
      let ?st = "\<lparr>file_handle = file_handle st @ [particle_line w ti pId c], rand = g\<rparr>"
      let ?st' = "\<lparr>file_handle = file_handle st' @ [particle_line w ti pId c'], rand = g\<rparr>"
      have "outcome (GenNostril_for n w ti r' (pId + 1) M ?st')
          = outcome (GenNostril_for n w ti r (pId + 1) M ?st)"
        using Suc.prems(2) without_position_particle_line[of w ti pId c' c]
        by (intro Suc.IH) simp_all
      then show ?thesis
        using Some res rl' Inr c' len len' by (simp add: call_whichOutput_length3)
    qed
  qed
qed

lemma outcome_cases:
  assumes "outcome res' = outcome res"
  obtains "res = None" "res' = None"
  | a st st' where "res = Some (a, st)" "res' = Some (a, st')" "rand st' = rand st"
      "map without_position (file_handle st') = map without_position (file_handle st)"
  using assms by (cases res; cases res') (auto simp add: outcome_def)

lemma time_step_sign:
  fixes cfg a b c d
  defines "cfg' \<equiv> cfg\<lparr>ymin := a, ymax := b, zmin := c, zmax := d, radius := - radius cfg\<rparr>"
  assumes "rand st' = rand st"
    and "map without_position (file_handle st') = map without_position (file_handle st)"
  shows "outcome (time_step cfg' ti pId st') = outcome (time_step cfg ti pId st)"
proof (cases "cyclePeriod cfg = 0")
  case True
  then show ?thesis using assms(2,3) by (simp add: time_step_def py_mod_def cfg'_def)
next
  case per: False
  then have per': "cyclePeriod cfg' \<noteq> 0" by (simp add: cfg'_def)
  show ?thesis
  proof (cases "exhaling cfg ti")
    case False
    then have "\<not> exhaling cfg' ti" by (simp add: exhaling_def cfg'_def)
    then show ?thesis
      using assms(2,3) by (simp add: time_step_resting[OF per False] time_step_resting[OF per'])
  next
    case True
    then have ex': "exhaling cfg' ti" by (simp add: exhaling_def cfg'_def)
    let ?m = "mouthCount cfg"
    let ?st1 = "\<lparr>file_handle = file_handle st
                    @ emit (whichOutput cfg) ti pId (mouth_coords cfg ?m (rand st)),
                 rand = sdrop (2 * ?m) (rand st)\<rparr>"
    let ?st1' = "\<lparr>file_handle = file_handle st'
                    @ emit (whichOutput cfg) ti pId (mouth_coords cfg' ?m (rand st')),
                 rand = sdrop (2 * ?m) (rand st')\<rparr>"
    note step = time_step_exhaling[OF per True, of pId st]
    have step': "time_step cfg' ti pId st' =
        (case GenNostril cfg ti (- radius cfg) (pId + int ?m) (leftRotTrans cfg) ?st1' of
           None \<Rightarrow> None
         | Some (Inl e, st2) \<Rightarrow> Some (Inl e, st2)
         | Some (Inr pId2, st2) \<Rightarrow> GenNostril cfg ti (- radius cfg) pId2 (rightRotTrans cfg) st2)"
    proof -
      have same: "GenNostril cfg' = GenNostril cfg"
        by (simp add: fun_eq_iff GenNostril_def cfg'_def)
      have flds: "radius cfg' = - radius cfg" "leftRotTrans cfg' = leftRotTrans cfg"
        "rightRotTrans cfg' = rightRotTrans cfg" "whichOutput cfg' = whichOutput cfg"
        "mouthCount cfg' = mouthCount cfg"
        by (simp_all add: cfg'_def)
      show ?thesis
        unfolding time_step_exhaling[OF per' ex'] same flds ..
    qed
    have rel1: "rand ?st1' = rand ?st1"
      "map without_position (file_handle ?st1') = map without_position (file_handle ?st1)"
      using assms(2,3) without_position_emit[of "mouth_coords cfg' ?m (rand st')"
          "mouth_coords cfg ?m (rand st)" "whichOutput cfg" ti pId]
      by simp_all
    have left: "outcome (GenNostril cfg ti (- radius cfg) (pId + int ?m) (leftRotTrans cfg) ?st1')
        = outcome (GenNostril cfg ti (radius cfg) (pId + int ?m) (leftRotTrans cfg) ?st1)"
      unfolding GenNostril_def by (rule GenNostril_for_sign[OF _ rel1]) simp
    from left show ?thesis
    proof (cases rule: outcome_cases)
      case 1
      then show ?thesis unfolding step step' by simp
    next
      case (2 res st2 st2')
      show ?thesis
      proof (cases res)
        case (Inl e)
        with 2 show ?thesis unfolding step step' by simp
      next
        case (Inr pId2)
        have "outcome (GenNostril cfg ti (- radius cfg) pId2 (rightRotTrans cfg) st2')
            = outcome (GenNostril cfg ti (radius cfg) pId2 (rightRotTrans cfg) st2)"
          unfolding GenNostril_def by (rule GenNostril_for_sign[OF _ 2(3,4)]) simp
        with 2 Inr show ?thesis unfolding step step' by simp
      qed
    qed
  qed
qed

lemma time_loop_sign:
  fixes cfg a b c d
  defines "cfg' \<equiv> cfg\<lparr>ymin := a, ymax := b, zmin := c, zmax := d, radius := - radius cfg\<rparr>"
  assumes "rand st' = rand st"
    and "map without_position (file_handle st') = map without_position (file_handle st)"
  shows "outcome (time_loop cfg' tis pId st') = outcome (time_loop cfg tis pId st)"
  using assms(2,3)
proof (induction tis arbitrary: pId st st')
  case Nil
  then show ?case by simp
next
  case (Cons ti tis)
  have "outcome (time_step cfg' ti pId st') = outcome (time_step cfg ti pId st)"
    unfolding cfg'_def using Cons.prems by (rule time_step_sign)
  then show ?case
  proof (cases rule: outcome_cases)
    case 1
    then show ?thesis by simp
  next
    case (2 res st2 st2')
    show ?thesis
    proof (cases res)
      case (Inl e)
      with 2 show ?thesis by simp
    next
      case (Inr pId2)
      with 2 Cons.IH[OF 2(3,4)] show ?thesis by simp
    qed
  qed
qed

lemma run_sign:
  "outcome (NoseParticleGeneration
              (cfg\<lparr>ymin := a, ymax := b, zmin := c, zmax := d, radius := - radius cfg\<rparr>) g)
   = outcome (NoseParticleGeneration cfg g)"
proof (cases "range_py 0 (runLength cfg + step cfg) (step cfg)")
  case (Inl e)
  then show ?thesis by (simp add: NoseParticleGeneration_def)
next
  case (Inr tis)
  let ?st0 = "\<lparr>file_handle = (if whichOutput cfg = UseOutput then header else []), rand = g\<rparr>"
  have "outcome (time_loop (cfg\<lparr>ymin := a, ymax := b, zmin := c, zmax := d,
                                radius := - radius cfg\<rparr>) tis 0 ?st0)
      = outcome (time_loop cfg tis 0 ?st0)"
    by (rule time_loop_sign) simp_all
  with Inr show ?thesis
    by (simp add: NoseParticleGeneration_def Let_def)
qed

lemma rejection_loop_zero: "rejection_loop 0 g = None"
proof (cases "rejection_loop 0 g")
  case None
  then show ?thesis .
next
  case (Some res)
  from rejection_loop_Some[OF Some] obtain k where "accepted 0 (sdrop (2 * k) g)" by blast
  then show ?thesis by (simp add: accepted_def candidate_def)
qed

lemma run_zero_radius:
  assumes "radius cfg = 0" and "0 < nostrilCount cfg" and "0 < step cfg" and "0 \<le> runLength cfg"
    and "0 < cyclePeriod cfg" and "0 < exhaleLength cfg"
  shows "NoseParticleGeneration cfg g = None"
proof -
  let ?n = "nat ((runLength cfg + step cfg - 0 + step cfg - 1) div step cfg)"
  have "step cfg \<le> runLength cfg + step cfg - 0 + step cfg - 1" using assms(3,4) by simp
  then have "step cfg div step cfg \<le> (runLength cfg + step cfg - 0 + step cfg - 1) div step cfg"
    using assms(3) by (rule zdiv_mono1)
  then have "1 \<le> (runLength cfg + step cfg - 0 + step cfg - 1) div step cfg"
    using assms(3) by simp
  then have "0 < ?n" by simp
  then have "[0..<?n] = 0 # [Suc 0..<?n]" by (simp add: upt_conv_Cons)
  then obtain tis where tis: "range_py 0 (runLength cfg + step cfg) (step cfg) = Inr (0 # tis)"
    using assms(3) by (simp add: range_py_def)
  have ex: "exhaling cfg 0" using assms(5,6) by (simp add: exhaling_def)
  from assms(2) obtain m where m: "nostrilCount cfg = Suc m" by (cases "nostrilCount cfg") auto
  from assms(5) have per: "cyclePeriod cfg \<noteq> 0" by simp
  have "time_step cfg 0 pId st = None" for pId st
    unfolding time_step_exhaling[OF per ex]
    by (simp add: GenNostril_def m assms(1) rejection_loop_zero)
  then show ?thesis
    by (simp add: NoseParticleGeneration_def tis Let_def)
qed

text \<open>
  The configuration with the inverted mouth rectangle and the negative radius is run to its
  end like any other: no fault is reported, and nine particle lines are in the file.
\<close>

theorem malformed_run_counterexample:
  "NoseParticleGeneration malformed_config (sconst (1 / 2))
   = Some (Inr 9,
       \<lparr>file_handle = header @
          [FullRecord 0.0015 3.371 1.68305 0 0,
           FullRecord 0.0015 3.371 1.68305 0 1,
           FullRecord 0.0015 3.371 1.68305 0 2,
           FullRecord 0.0015 3.371 1.68305 0 3,
           FullRecord 0.0015 3.371 1.68305 0 4,
           FullRecord 0.00573 (- 0.00875) 1.71177 0 5,
           FullRecord 0.00573 (- 0.00875) 1.71177 0 6,
           FullRecord 0.00573 (- 0.00875) 1.71177 0 7,
           FullRecord 0.00573 (- 0.00875) 1.71177 0 8],
        rand = sconst (1 / 2)\<rparr>)"
proof -
  let ?cfg = malformed_config
  have r: "range_py 0 (runLength ?cfg + step ?cfg) (step ?cfg) = Inr [0]"
    by (simp add: range_py_def malformed_config_def default_config_def)
  have w: "whichOutput ?cfg = UseOutput" by (simp add: malformed_config_def default_config_def)
  have ex: "exhaling ?cfg 0" by (simp add: exhaling_def malformed_config_def default_config_def)
  have per: "cyclePeriod ?cfg \<noteq> 0" by (simp add: malformed_config_def default_config_def)
  have "time_step ?cfg 0 0 \<lparr>file_handle = header, rand = sconst (1 / 2)\<rparr>
   = Some (Inr 9,
       \<lparr>file_handle = header @
          [FullRecord 0.0015 3.371 1.68305 0 0,
           FullRecord 0.0015 3.371 1.68305 0 1,
           FullRecord 0.0015 3.371 1.68305 0 2,
           FullRecord 0.0015 3.371 1.68305 0 3,
           FullRecord 0.0015 3.371 1.68305 0 4,
           FullRecord 0.00573 (- 0.00875) 1.71177 0 5,
           FullRecord 0.00573 (- 0.00875) 1.71177 0 6,
           FullRecord 0.00573 (- 0.00875) 1.71177 0 7,
           FullRecord 0.00573 (- 0.00875) 1.71177 0 8],
        rand = sconst (1 / 2)\<rparr>)"
    unfolding time_step_exhaling[OF per ex]
    by (simp add: malformed_config_def default_config_def GenNostril_def eval_nat_numeral
        rejection_loop_sconst_half RotTrans_ok well_shaped_def call_whichOutput_three
        Output_three particle_line_def uniform_def ydel_def zdel_def)
  then show ?thesis
    unfolding NoseParticleGeneration_def r w by simp
qed

text \<open>
  C9 (amended). The program validates nothing and reports no configuration fault. The sign
  of the radius and the bounds of the mouth rectangle are never tested: the run of a
  configuration with the radius negated and the rectangle replaced by any other, an empty or
  inverted one included, takes the course of the run of the configuration itself: it ends
  in the same way, leaves the same generator, and has written the same lines but for the
  positions they carry. A run that returns, of whatever configuration, has written a full
  batch at every exhaling time step and nothing at the others. With radius zero no
  candidate is ever accepted, and a run whose first time step is exhaling never returns.
\<close>

theorem no_validation:
  "outcome (NoseParticleGeneration
              (cfg\<lparr>ymin := a, ymax := b, zmin := c, zmax := d, radius := - radius cfg\<rparr>) g)
     = outcome (NoseParticleGeneration cfg g)
   \<and> (\<forall>n st. NoseParticleGeneration cfg g = Some (Inr n, st) \<longrightarrow>
         (\<exists>tis bs. range_py 0 (runLength cfg + step cfg) (step cfg) = Inr tis
            \<and> file_handle st = preamble cfg @ concat bs
            \<and> length bs = length tis
            \<and> (\<forall>i<length tis.
                 is_batch (whichOutput cfg) (tis ! i) (int (length (concat (take i bs)))) (bs ! i)
                 \<and> length (bs ! i) = batch_size cfg (tis ! i))))
   \<and> (radius cfg = 0 \<and> 0 < nostrilCount cfg \<and> 0 < step cfg \<and> 0 \<le> runLength cfg
      \<and> 0 < cyclePeriod cfg \<and> 0 < exhaleLength cfg
    \<longrightarrow> NoseParticleGeneration cfg g = None)"
proof (intro conjI impI allI)
  show "outcome (NoseParticleGeneration
              (cfg\<lparr>ymin := a, ymax := b, zmin := c, zmax := d, radius := - radius cfg\<rparr>) g)
     = outcome (NoseParticleGeneration cfg g)"
    by (rule run_sign)
next
  fix n st
  assume "NoseParticleGeneration cfg g = Some (Inr n, st)"
  from run_Inr[OF this] obtain tis bs where *:
    "range_py 0 (runLength cfg + step cfg) (step cfg) = Inr tis"
    "batches_ok cfg tis 0 bs" "file_handle st = preamble cfg @ concat bs"
    by blast
  have "\<forall>i<length tis.
          is_batch (whichOutput cfg) (tis ! i) (int (length (concat (take i bs)))) (bs ! i)
          \<and> length (bs ! i) = batch_size cfg (tis ! i)"
    using batches_ok_nth[OF *(2)] by simp
  with * batches_ok_length[OF *(2)]
  show "\<exists>tis bs. range_py 0 (runLength cfg + step cfg) (step cfg) = Inr tis
            \<and> file_handle st = preamble cfg @ concat bs
            \<and> length bs = length tis
            \<and> (\<forall>i<length tis.
                 is_batch (whichOutput cfg) (tis ! i) (int (length (concat (take i bs)))) (bs ! i)
                 \<and> length (bs ! i) = batch_size cfg (tis ! i))"
    by blast
next
  assume "radius cfg = 0 \<and> 0 < nostrilCount cfg \<and> 0 < step cfg \<and> 0 \<le> runLength cfg
      \<and> 0 < cyclePeriod cfg \<and> 0 < exhaleLength cfg"
  then show "NoseParticleGeneration cfg g = None"
    by (intro run_zero_radius) auto
qed

theorem no_validation_witness:
  "outcome (NoseParticleGeneration malformed_config (sconst (1 / 2)))
     = outcome (NoseParticleGeneration (default_config\<lparr>runLength := 0\<rparr>) (sconst (1 / 2)))
   \<and> (\<exists>st b. NoseParticleGeneration malformed_config (sconst (1 / 2)) = Some (Inr 9, st)
         \<and> file_handle st = header @ b \<and> is_batch UseOutput 0 0 b \<and> length b = 9)
   \<and> NoseParticleGeneration (default_config\<lparr>radius := 0\<rparr>) (sconst (1 / 2)) = None"
proof -
  let ?g = "sconst (1 / 2 :: real)"
  let ?cfg = "default_config\<lparr>runLength := 0\<rparr>"
  have cfg: "?cfg\<lparr>ymin := 3.391, ymax := 3.351, zmin := zmin ?cfg, zmax := zmax ?cfg,
                  radius := - radius ?cfg\<rparr> = malformed_config"
    by (simp add: malformed_config_def default_config_def)
  note inst = no_validation[where cfg = ?cfg and a = "3.391" and b = "3.351"
      and c = "zmin ?cfg" and d = "zmax ?cfg" and g = ?g]
  from inst[unfolded cfg]
  have same: "outcome (NoseParticleGeneration malformed_config ?g)
      = outcome (NoseParticleGeneration ?cfg ?g)"
    by (rule conjunct1)
  then obtain st where run: "NoseParticleGeneration malformed_config ?g = Some (Inr 9, st)"
    unfolding run0 by (cases rule: outcome_cases) auto
  have r: "range_py 0 (runLength malformed_config + step malformed_config) (step malformed_config)
      = Inr [0]"
    by (simp add: range_py_def malformed_config_def default_config_def)
  have bsz: "batch_size malformed_config 0 = 9"
    by (simp add: batch_size_def exhaling_def malformed_config_def default_config_def)
  have w: "whichOutput malformed_config = UseOutput"
    by (simp add: malformed_config_def default_config_def)
  from no_validation[where cfg = malformed_config and g = ?g] run obtain tis bs where *:
    "range_py 0 (runLength malformed_config + step malformed_config) (step malformed_config)
      = Inr tis"
    "file_handle st = preamble malformed_config @ concat bs"
    "length bs = length tis"
    "\<forall>i<length tis.
        is_batch (whichOutput malformed_config) (tis ! i) (int (length (concat (take i bs)))) (bs ! i)
        \<and> length (bs ! i) = batch_size malformed_config (tis ! i)"
    by blast
  from *(1) r have tis: "tis = [0]" by simp
  with *(3) obtain b where bs: "bs = [b]" by (cases bs) auto
  from *(4) tis bs bsz w have "is_batch UseOutput 0 0 b \<and> length b = 9" by simp
  moreover from *(2) bs w have "file_handle st = header @ b" by (simp add: preamble_def)
  ultimately have "\<exists>st b. NoseParticleGeneration malformed_config ?g = Some (Inr 9, st)
         \<and> file_handle st = header @ b \<and> is_batch UseOutput 0 0 b \<and> length b = 9"
    using run by blast
  moreover have "NoseParticleGeneration (default_config\<lparr>radius := 0\<rparr>) ?g = None"
    using no_validation[where cfg = "default_config\<lparr>radius := 0\<rparr>" and g = ?g]
    by (simp add: default_config_def)
  ultimately show ?thesis using same by blast
qed

end
